theory Spec2Isabelle
  imports Main "HOL-Library.Sublist"
begin

section \<open>Values held in the tables\<close>

text \<open>
  The tables of a model are arrays of floats, of integer labels and of strings.
  A float cell is an IEEE double: a finite value \<open>(-1)^s * m * 2^e\<close> (sign bit,
  mantissa, binary exponent; the sign bit tells \<open>-0.0\<close> from \<open>0.0\<close>), an infinity, or
  NaN. In a float array NaN is the null marker: \<open>notnull\<close> is false exactly there.
  A label cell is an integer or null; the sentinel is the integer \<open>-1\<close>.
\<close>

datatype pyfloat = Finite bool nat int | Infinity bool | NaN

type_synonym label = "int option"

datatype error = TypeError | KeyError string | NameError | MergeError string | ValueError

definition nl :: string where
  "nl = [CHR 0x0A]"

definition notnull :: "pyfloat \<Rightarrow> bool" where
  "notnull f = (f \<noteq> NaN)"

definition fillna0 :: "pyfloat \<Rightarrow> pyfloat" where
  "fillna0 f = (if f = NaN then Finite False 0 0 else f)"

definition fillna0_label :: "label \<Rightarrow> int" where
  "fillna0_label d = (case d of None \<Rightarrow> 0 | Some i \<Rightarrow> i)"

section \<open>printf-style formatting\<close>

definition digit_char :: "nat \<Rightarrow> char" where
  "digit_char d = ''0123456789'' ! (d mod 10)"

fun dec_str :: "nat \<Rightarrow> string" where
  "dec_str n = (if n < 10 then [digit_char n] else dec_str (n div 10) @ [digit_char (n mod 10)])"

declare dec_str.simps [simp del]

text \<open>\<open>"%d" % d\<close> on an integer: a minus sign for a negative one, then the decimal digits.\<close>

definition fmt_d :: "int \<Rightarrow> string" where
  "fmt_d i = (if i < 0 then ''-'' @ dec_str (nat (- i)) else dec_str (nat i))"

text \<open>
  \<open>"%+f" % f\<close>: the sign character, then the exact value rounded to six decimals
  (to nearest, ties to even, as the correctly rounded conversion does), the integer part
  in decimal, a point and six fractional digits. An infinity prints as \<open>inf\<close> and NaN as
  \<open>nan\<close> after the sign.
\<close>

definition round_half_even :: "nat \<Rightarrow> nat \<Rightarrow> nat" where
  "round_half_even n d =
     (let q = n div d; r = n mod d
      in if 2 * r < d then q else if d < 2 * r then q + 1 else if even q then q else q + 1)"

definition micro :: "nat \<Rightarrow> int \<Rightarrow> nat" where
  "micro m e =
     (if 0 \<le> e then m * 2 ^ nat e * 1000000
      else round_half_even (m * 1000000) (2 ^ nat (- e)))"

definition frac6 :: "nat \<Rightarrow> string" where
  "frac6 n = map (\<lambda>i. digit_char (n div 10 ^ i)) [5, 4, 3, 2, 1, 0]"

fun fmt_plus_f :: "pyfloat \<Rightarrow> string" where
  "fmt_plus_f (Finite s m e) =
     (if s then ''-'' else ''+'')
       @ dec_str (micro m e div 1000000) @ ''.'' @ frac6 (micro m e mod 1000000)"
| "fmt_plus_f (Infinity s) = (if s then ''-inf'' else ''+inf'')"
| "fmt_plus_f NaN = ''+nan''"

text \<open>
  \<open>to_float_str\<close> and \<open>to_int_str\<close> (io.py 19-26) map the formatter over the array after
  \<open>fillna(0)\<close>; here they are given for one cell, the array functions below map them.
\<close>

definition to_float_str :: "pyfloat \<Rightarrow> string" where
  "to_float_str f = fmt_plus_f (fillna0 f)"

definition to_int_str :: "label \<Rightarrow> string" where
  "to_int_str d = fmt_d (fillna0_label d)"

section \<open>Object arrays and the string pipeline\<close>

text \<open>
  The string tables are arrays of Python objects. Besides strings, two other objects can
  reach the concatenation: the integer that \<open>np.sum\<close> returns for an empty axis, and the
  null of the sign table. Adding anything but a string to a string raises \<open>TypeError\<close>.
\<close>

datatype pyobj = PyStr string | PyInt int | PyNull

fun str_add :: "string \<Rightarrow> pyobj \<Rightarrow> error + string" where
  "str_add a (PyStr b) = Inr (a @ b)"
| "str_add a (PyInt i) = Inl TypeError"
| "str_add a PyNull = Inl TypeError"

text \<open>\<open>join_str_arrays\<close> (io.py 29-32): \<open>reduce(np.add, arraylist, "")\<close>, for one cell.\<close>

fun reduce_add :: "string \<Rightarrow> pyobj list \<Rightarrow> error + string" where
  "reduce_add acc [] = Inr acc"
| "reduce_add acc (x # xs) =
     (case str_add acc x of Inl e \<Rightarrow> Inl e | Inr acc' \<Rightarrow> reduce_add acc' xs)"

definition join_str_arrays :: "pyobj list \<Rightarrow> error + string" where
  "join_str_arrays arraylist = reduce_add [] arraylist"

text \<open>\<open>.where(cond, other)\<close> for one cell.\<close>

definition where_else :: "string \<Rightarrow> bool \<Rightarrow> string \<Rightarrow> string" where
  "where_else x cond other = (if cond then x else other)"

text \<open>
  \<open>.reduce(np.sum, term_names)\<close> on one row of strings: the concatenation in ascending
  term index, and the integer 0 (the identity of \<open>np.add\<close>) when the term axis is empty.
\<close>

definition np_sum :: "string list \<Rightarrow> pyobj" where
  "np_sum xs = (if xs = [] then PyInt 0 else PyStr (concat xs))"

text \<open>\<open>.any(term_names)\<close> on one row of booleans.\<close>

definition np_any :: "bool list \<Rightarrow> bool" where
  "np_any bs = foldr (\<or>) bs False"

text \<open>An elementwise computation over an array raises when one of its cells does.\<close>

fun all_ok :: "(error + 'a) list \<Rightarrow> error + 'a list" where
  "all_ok [] = Inr []"
| "all_ok (x # xs) =
     (case x of Inl e \<Rightarrow> Inl e
      | Inr y \<Rightarrow> (case all_ok xs of Inl e \<Rightarrow> Inl e | Inr ys \<Rightarrow> Inr (y # ys)))"

section \<open>The sink\<close>

text \<open>
  The sink is the sequence of strings passed to \<open>f.write\<close>, in call order; the file's
  content is their concatenation. \<open>str_array_to_file\<close> (io.py 35-43) writes every cell of
  the array, one call per cell, in array order.
\<close>

type_synonym sink = "string list"

definition fwrite :: "sink \<Rightarrow> string \<Rightarrow> sink" where
  "fwrite f x = f @ [x]"

definition str_array_to_file :: "string list \<Rightarrow> sink \<Rightarrow> sink" where
  "str_array_to_file array fn = foldl fwrite fn array"

definition content :: "sink \<Rightarrow> string" where
  "content f = concat f"

section \<open>The model read by the text export\<close>

text \<open>
  A Dataset is an ordered mapping from the names of its data variables to arrays; an
  array is kept as the list of its cells in row-major order. The five constraint
  Datasets (\<open>constraints\<close>, \<open>constraints_lhs_coeffs\<close>, \<open>constraints_lhs_vars\<close>,
  \<open>constraints_sign\<close>, \<open>constraints_rhs\<close>) share names and shapes along the non-term
  axes, so a row carries the cells of all five at one position, and its \<open>lhs\<close> runs
  along the term axis. Likewise a variable row carries the cells of \<open>variables\<close>,
  \<open>variables_lower_bound\<close> and \<open>variables_upper_bound\<close>, and an objective term the cells
  of \<open>objective.coeffs\<close> and \<open>objective.vars\<close>. \<open>non_binary_variables\<close> is the model's
  list of names \<open>_non_binary_variables\<close>, a property of model.py, which is not among the
  sources: the declared subset of the variables marked as non-binary.
\<close>

type_synonym 'a dataset = "(string \<times> 'a list) list"

record con_row =
  con :: label
  lhs :: "(pyfloat \<times> label) list"
  sign :: "string option"
  rhs :: pyfloat

record var_row =
  lower_bound :: pyfloat
  var :: label
  upper_bound :: pyfloat

record model =
  objective :: "(pyfloat \<times> label) list"
  constraints :: "con_row dataset"
  variables :: "var_row dataset"
  non_binary_variables :: "string list"
  binaries :: "label dataset"

definition cells :: "'a dataset \<Rightarrow> 'a list" where
  "cells ds = concat (map snd ds)"

text \<open>\<open>ds[names]\<close>: the data variables of the given names, \<open>KeyError\<close> on an unknown one.\<close>

definition select :: "'a dataset \<Rightarrow> string list \<Rightarrow> error + 'a dataset" where
  "select ds names =
     all_ok (map (\<lambda>n. case map_of ds n of None \<Rightarrow> Inl (KeyError n) | Some a \<Rightarrow> Inr (n, a)) names)"

section \<open>The text export\<close>

definition sign_obj :: "string option \<Rightarrow> pyobj" where
  "sign_obj s = (case s of None \<Rightarrow> PyNull | Some t \<Rightarrow> PyStr t)"

text \<open>io.py 52-54, for one objective term.\<close>

definition objective_str :: "pyfloat \<times> label \<Rightarrow> error + string" where
  "objective_str = (\<lambda>(coef, var).
     let nonnans = (notnull coef \<and> var \<noteq> Some (- 1));
         join = [PyStr (to_float_str coef), PyStr '' x'', PyStr (to_int_str var), PyStr nl]
     in case join_str_arrays join of Inl e \<Rightarrow> Inl e
        | Inr s \<Rightarrow> Inr (where_else s nonnans []))"

definition objective_to_file :: "model \<Rightarrow> sink \<Rightarrow> error + sink" where
  "objective_to_file m f =
     (let f = fwrite f (''min'' @ nl @ ''obj:'' @ nl)
      in case all_ok (map objective_str (objective m)) of Inl e \<Rightarrow> Inl e
         | Inr strs \<Rightarrow> Inr (str_array_to_file strs f))"

text \<open>io.py 69-71, for one constraint row: the masked term strings, summed over the term axis.\<close>

definition lhs_str :: "(pyfloat \<times> label) list \<Rightarrow> error + pyobj" where
  "lhs_str terms =
     (case all_ok (map (\<lambda>(coef, var).
             join_str_arrays
               [PyStr (to_float_str coef), PyStr '' x'', PyStr (to_int_str var), PyStr nl])
           terms) of
        Inl e \<Rightarrow> Inl e
      | Inr strs \<Rightarrow>
          Inr (np_sum (map2 (\<lambda>s (coef, var). where_else s (notnull coef \<and> var \<noteq> Some (- 1)) [])
                         strs terms)))"

text \<open>io.py 74-86, for one constraint row.\<close>

definition constraints_str :: "con_row \<Rightarrow> error + string" where
  "constraints_str row =
     (case lhs_str (lhs row) of Inl e \<Rightarrow> Inl e
      | Inr l \<Rightarrow>
          let nonnans = (np_any (map (\<lambda>(coef, var). notnull coef \<and> var \<noteq> Some (- 1)) (lhs row))
                         \<and> con row \<noteq> Some (- 1) \<and> sign row \<noteq> None \<and> notnull (rhs row));
              join = [PyStr ''c'', PyStr (to_int_str (con row)), PyStr ('': '' @ nl), l,
                      sign_obj (sign row), PyStr nl, PyStr (to_float_str (rhs row)),
                      PyStr (nl @ nl)]
          in case join_str_arrays join of Inl e \<Rightarrow> Inl e
             | Inr s \<Rightarrow> Inr (where_else s nonnans []))"

definition constraints_to_file :: "model \<Rightarrow> sink \<Rightarrow> error + sink" where
  "constraints_to_file m f =
     (let f = fwrite f (nl @ nl @ ''s.t.'' @ nl @ nl)
      in case all_ok (map constraints_str (cells (constraints m))) of Inl e \<Rightarrow> Inl e
         | Inr strs \<Rightarrow> Inr (str_array_to_file strs f))"

text \<open>io.py 97-99, for one row of the selected variables.\<close>

definition bounds_str :: "var_row \<Rightarrow> error + string" where
  "bounds_str row =
     (let lb = lower_bound row; v = var row; ub = upper_bound row;
          nonnans = (notnull lb \<and> notnull ub \<and> v \<noteq> Some (- 1));
          join = [PyStr (to_float_str lb), PyStr '' <= x'', PyStr (to_int_str v), PyStr '' <= '',
                  PyStr (to_float_str ub), PyStr nl]
      in case join_str_arrays join of Inl e \<Rightarrow> Inl e
         | Inr s \<Rightarrow> Inr (where_else s nonnans []))"

definition bounds_to_file :: "model \<Rightarrow> sink \<Rightarrow> error + sink" where
  "bounds_to_file m f =
     (let f = fwrite f (nl @ ''bounds'' @ nl)
      in case select (variables m) (non_binary_variables m) of Inl e \<Rightarrow> Inl e
         | Inr sel \<Rightarrow>
             (case all_ok (map bounds_str (cells sel)) of Inl e \<Rightarrow> Inl e
              | Inr strs \<Rightarrow> Inr (str_array_to_file strs f)))"

text \<open>io.py 107-111, for one entry of the binaries.\<close>

definition binaries_str :: "label \<Rightarrow> error + string" where
  "binaries_str v =
     (let nonnans = (v \<noteq> Some (- 1))
      in case join_str_arrays [PyStr ''x'', PyStr (to_int_str v), PyStr nl] of Inl e \<Rightarrow> Inl e
         | Inr s \<Rightarrow> Inr (where_else s nonnans []))"

definition binaries_to_file :: "model \<Rightarrow> sink \<Rightarrow> error + sink" where
  "binaries_to_file m f =
     (let f = fwrite f (nl @ ''binary'' @ nl)
      in case all_ok (map binaries_str (cells (binaries m))) of Inl e \<Rightarrow> Inl e
         | Inr strs \<Rightarrow> Inr (fwrite (str_array_to_file strs f) (''end'' @ nl)))"

text \<open>
  \<open>to_file\<close> (io.py 116-130): an existing file is removed and the file opened for
  writing, so the sink starts empty; then the four sections in order. An exception in a
  section ends the export; the result is then the exception, and what the file holds at
  that point is not kept.
\<close>

definition to_file :: "model \<Rightarrow> error + sink" where
  "to_file m =
     (case objective_to_file m [] of Inl e \<Rightarrow> Inl e
      | Inr f1 \<Rightarrow>
     (case constraints_to_file m f1 of Inl e \<Rightarrow> Inl e
      | Inr f2 \<Rightarrow>
     (case bounds_to_file m f2 of Inl e \<Rightarrow> Inl e
      | Inr f3 \<Rightarrow> binaries_to_file m f3)))"

section \<open>The binary snapshot\<close>

text \<open>
  An \<open>xr.Dataset\<close> is its ordered data variables and its attrs. Reading does not look
  into a table, so the reading side is written for any type \<open>'t\<close> of tables; a scalar
  attribute has any type \<open>'v\<close>. Writing merges the categories with \<open>xr.merge\<close>, which
  aligns the tables on the dimensions they share; for it a table is an array with its
  dimensions and their indexes (\<open>'c table\<close> below). The netCDF file is taken to hold
  exactly the Dataset written to it: \<open>to_netcdf\<close> yields the Dataset it writes and
  \<open>read_netcdf\<close> starts from the Dataset loaded.

  The model object is read and written by attribute name (\<open>getattr\<close>, \<open>setattr\<close>):
  \<open>arrays\<close> gives the value of a category attribute and \<open>scalars\<close> that of a scalar one.
  A category is a plain Dataset or a \<open>LinearExpression\<close>; only its data variables are
  kept, the attrs of a category are not.

  The lists \<open>array_attrs\<close> and \<open>obj_attrs\<close> are imported from model.py, which is not
  among the sources, and so is \<open>Model()\<close>; they are parameters here (\<open>m0\<close> is the
  fresh model).
\<close>

record ('t, 'v) xr_dataset =
  data_vars :: "(string \<times> 't) list"
  attrs :: "(string \<times> 'v) list"

datatype 't entity = Table "(string \<times> 't) list" | TermTable "(string \<times> 't) list"

fun fields_of :: "'t entity \<Rightarrow> (string \<times> 't) list" where
  "fields_of (Table vs) = vs"
| "fields_of (TermTable vs) = vs"

record ('t, 'v) pymodel =
  arrays :: "string \<Rightarrow> 't entity"
  scalars :: "string \<Rightarrow> 'v"

text \<open>
  Modelled from the spec: the constructor \<open>LinearExpression\<close> of model.py, which is not
  among the sources. The specification says that the Objective category is reconstructed
  as a term-table entity (not a plain table) from its raw fields.
\<close>

definition LinearExpression :: "'t entity \<Rightarrow> 't entity" where
  "LinearExpression e = TermTable (fields_of e)"

text \<open>
  A table as \<open>xr.merge\<close> sees it: the named dimensions of the array, each with its index
  (the coordinate labels, or only a size when the dimension has no coordinate), and the
  cells in row-major order, a null cell being \<open>None\<close>. The labels of an index are
  distinct. Coordinates of a Dataset that none of its data variables uses are not kept.
\<close>

datatype index = Labeled "int list" | Unlabeled nat

record 'c table =
  axes :: "(string \<times> index) list"
  tdata :: "'c option list"

fun index_size :: "index \<Rightarrow> nat" where
  "index_size (Labeled ls) = length ls"
| "index_size (Unlabeled n) = n"

fun labels_of :: "index list \<Rightarrow> int list list" where
  "labels_of [] = []"
| "labels_of (Labeled ls # r) = ls # labels_of r"
| "labels_of (Unlabeled n # r) = labels_of r"

fun sizes_of :: "index list \<Rightarrow> nat list" where
  "sizes_of [] = []"
| "sizes_of (Labeled ls # r) = sizes_of r"
| "sizes_of (Unlabeled n # r) = n # sizes_of r"

text \<open>
  The outer join of the indexes that the merged tables have for one dimension
  (\<open>join="outer"\<close> is the default of \<open>xr.merge\<close>): equal indexes are kept, different ones
  give the sorted union of their labels; a table without labels on the dimension must have
  the size of the joined index, and tables that all lack labels must have one size, or
  the alignment raises \<open>ValueError\<close>.
\<close>

definition join_dim :: "index list \<Rightarrow> error + index" where
  "join_dim ixs =
     (case labels_of ixs of
        [] \<Rightarrow>
          (case sizes_of ixs of
             [] \<Rightarrow> Inl ValueError
           | n # ns \<Rightarrow> if list_all (\<lambda>k. k = n) ns then Inr (Unlabeled n) else Inl ValueError)
      | l # ls \<Rightarrow>
          let ix = (if list_all (\<lambda>l'. l' = l) ls then l else sort (remdups (concat (l # ls))))
          in if list_all (\<lambda>k. k = length ix) (sizes_of ixs) then Inr (Labeled ix)
             else Inl ValueError)"

text \<open>
  Reindexing a table to new indexes: the cell at a position of the new shape is the old
  cell with the same labels, and null when the old index lacks one of the labels (the
  fill value of the join). Along a dimension without labels the position is kept.
\<close>

fun label_position :: "int \<Rightarrow> int list \<Rightarrow> nat option" where
  "label_position x [] = None"
| "label_position x (y # ys) =
     (if x = y then Some 0 else map_option Suc (label_position x ys))"

fun old_position :: "index \<Rightarrow> index \<Rightarrow> nat \<Rightarrow> nat option" where
  "old_position (Labeled old) (Labeled new) p =
     (if p < length new then label_position (new ! p) old else None)"
| "old_position (Labeled old) (Unlabeled n) p = Some p"
| "old_position (Unlabeled n) new p = Some p"

fun old_positions :: "index list \<Rightarrow> index list \<Rightarrow> nat list \<Rightarrow> nat list option" where
  "old_positions (old # olds) (new # news) (p # ps) =
     (case old_position old new p of
        None \<Rightarrow> None
      | Some q \<Rightarrow> map_option ((#) q) (old_positions olds news ps))"
| "old_positions olds news ps = Some []"

fun positions :: "nat list \<Rightarrow> nat list list" where
  "positions [] = [[]]"
| "positions (n # ns) = concat (map (\<lambda>i. map ((#) i) (positions ns)) [0..<n])"

fun offset :: "nat list \<Rightarrow> nat list \<Rightarrow> nat" where
  "offset (n # ns) (i # is) = i * prod_list ns + offset ns is"
| "offset ns is = 0"

definition reindex :: "'c table \<Rightarrow> index list \<Rightarrow> 'c table" where
  "reindex t news =
     (let olds = map snd (axes t)
      in \<lparr>axes = zip (map fst (axes t)) news,
          tdata = map (\<lambda>p. case old_positions olds news p of
                               None \<Rightarrow> None
                             | Some q \<Rightarrow>
                                 (let i = offset (map index_size olds) q
                                  in if i < length (tdata t) then tdata t ! i else None))
                      (positions (map index_size news))\<rparr>)"

text \<open>
  The alignment that \<open>xr.merge\<close> performs before it merges: every dimension gets the join
  of the indexes that the tables of all the Datasets have for it, and a table whose own
  indexes differ from the joined ones is reindexed; the others are left as they are.
\<close>

definition all_axes :: "(string \<times> 'c table) list list \<Rightarrow> (string \<times> index) list" where
  "all_axes dss = concat (map (\<lambda>(k, t). axes t) (concat dss))"

definition dim_indexes :: "string \<Rightarrow> (string \<times> index) list \<Rightarrow> index list" where
  "dim_indexes d ax = map snd (filter (\<lambda>(d', ix). d' = d) ax)"

definition align_table :: "(string \<times> index) list \<Rightarrow> 'c table \<Rightarrow> error + 'c table" where
  "align_table ax t =
     (case all_ok (map (\<lambda>(d, ix). join_dim (dim_indexes d ax)) (axes t)) of
        Inl e \<Rightarrow> Inl e
      | Inr news \<Rightarrow> Inr (if news = map snd (axes t) then t else reindex t news))"

definition align ::
  "(string \<times> 'c table) list list \<Rightarrow> error + (string \<times> 'c table) list list" where
  "align dss =
     all_ok (map (\<lambda>ds. all_ok (map (\<lambda>(k, t). case align_table (all_axes dss) t of
                                                 Inl e \<Rightarrow> Inl e
                                               | Inr t' \<Rightarrow> Inr (k, t'))
                                  ds))
               dss)"

text \<open>\<open>get_and_rename\<close> (io.py 149-151): every data variable \<open>v\<close> becomes \<open>attr-v\<close>.\<close>

definition get_and_rename :: "('t, 'v) pymodel \<Rightarrow> string \<Rightarrow> (string \<times> 't) list" where
  "get_and_rename m attr = map (\<lambda>(v, t). (attr @ ''-'' @ v, t)) (fields_of (arrays m attr))"

text \<open>
  \<open>xr.merge\<close>, after the alignment: the data variables of the Datasets in order; a name
  met again is kept once when the tables agree and raises \<open>MergeError\<close> when they differ.
\<close>

fun merge_vars :: "(string \<times> 't) list \<Rightarrow> (string \<times> 't) list \<Rightarrow> error + (string \<times> 't) list" where
  "merge_vars acc [] = Inr acc"
| "merge_vars acc ((k, t) # r) =
     (case map_of acc k of
        None \<Rightarrow> merge_vars (acc @ [(k, t)]) r
      | Some t' \<Rightarrow> if t' = t then merge_vars acc r else Inl (MergeError k))"

fun merge_from :: "(string \<times> 't) list \<Rightarrow> (string \<times> 't) list list \<Rightarrow> error + (string \<times> 't) list" where
  "merge_from acc [] = Inr acc"
| "merge_from acc (ds # dss) =
     (case merge_vars acc ds of Inl e \<Rightarrow> Inl e | Inr acc' \<Rightarrow> merge_from acc' dss)"

definition merge :: "(string \<times> 't) list list \<Rightarrow> error + (string \<times> 't) list" where
  "merge dss = merge_from [] dss"

text \<open>\<open>to_netcdf\<close> (io.py 133-156).\<close>

definition to_netcdf ::
  "string list \<Rightarrow> string list \<Rightarrow> ('c table, 'v) pymodel \<Rightarrow> error + ('c table, 'v) xr_dataset" where
  "to_netcdf array_attrs obj_attrs m =
     (case align (map (get_and_rename m) array_attrs) of Inl e \<Rightarrow> Inl e
      | Inr aligned \<Rightarrow>
          (case merge aligned of Inl e \<Rightarrow> Inl e
           | Inr vs \<Rightarrow> Inr \<lparr>data_vars = vs, attrs = map (\<lambda>k. (k, scalars m k)) obj_attrs\<rparr>))"

definition startswith :: "string \<Rightarrow> string \<Rightarrow> bool" where
  "startswith k p = prefix p k"

text \<open>
  One turn of the loop of \<open>read_netcdf\<close> (io.py 185-188): the data variables whose key
  starts with \<open>attr-\<close>, renamed to the key without that prefix. The selection keeps the
  attrs of the loaded Dataset. The loop leaves the last \<open>ds\<close> bound.
\<close>

definition category :: "('t, 'v) xr_dataset \<Rightarrow> string \<Rightarrow> ('t, 'v) xr_dataset" where
  "category all_ds attr =
     (let keys = filter (\<lambda>(k, t). startswith k (attr @ ''-'')) (data_vars all_ds)
      in \<lparr>data_vars = map (\<lambda>(k, t). (drop (length attr + 1) k, t)) keys, attrs = attrs all_ds\<rparr>)"

fun read_arrays ::
  "('t, 'v) xr_dataset \<Rightarrow> string list \<Rightarrow> ('t, 'v) pymodel \<times> ('t, 'v) xr_dataset option
     \<Rightarrow> ('t, 'v) pymodel \<times> ('t, 'v) xr_dataset option" where
  "read_arrays all_ds [] st = st"
| "read_arrays all_ds (attr # rest) (m, bound) =
     (let ds = category all_ds attr
      in read_arrays all_ds rest (m\<lparr>arrays := (arrays m)(attr := Table (data_vars ds))\<rparr>, Some ds))"

text \<open>
  The second loop (io.py 191-192): \<open>ds.attrs.pop(k)\<close> raises \<open>KeyError\<close> on a missing key
  and removes the key it returns.
\<close>

fun pop_attrs ::
  "string list \<Rightarrow> (string \<times> 'v) list \<Rightarrow> ('t, 'v) pymodel \<Rightarrow> error + ('t, 'v) pymodel" where
  "pop_attrs [] at m = Inr m"
| "pop_attrs (k # ks) at m =
     (case map_of at k of
        None \<Rightarrow> Inl (KeyError k)
      | Some v \<Rightarrow> pop_attrs ks (filter (\<lambda>(k', v'). k' \<noteq> k) at) (m\<lparr>scalars := (scalars m)(k := v)\<rparr>))"

text \<open>\<open>read_netcdf\<close> (io.py 159-194). With no category the name \<open>ds\<close> is unbound at line 192.\<close>

definition read_netcdf ::
  "string list \<Rightarrow> string list \<Rightarrow> ('t, 'v) pymodel \<Rightarrow> ('t, 'v) xr_dataset
     \<Rightarrow> error + ('t, 'v) pymodel" where
  "read_netcdf array_attrs obj_attrs m0 all_ds =
     (case read_arrays all_ds array_attrs (m0, None) of (m, bound) \<Rightarrow>
        let m = m\<lparr>arrays := (arrays m)(''objective'' := LinearExpression (arrays m ''objective''))\<rparr>
        in if obj_attrs = [] then Inr m
           else (case bound of None \<Rightarrow> Inl NameError
                 | Some ds \<Rightarrow> pop_attrs obj_attrs (attrs ds) m))"

section \<open>The renderings the specification describes\<close>

text \<open>
  These definitions follow the specification's words (its sections 3 and 4.1), not the
  code: which cells and rows are valid, and the text of a term line, of a constraint
  block, of a bounds line and of a binary line. The theorems below compare the export
  with them.
\<close>

definition valid_cell :: "pyfloat \<times> label \<Rightarrow> bool" where
  "valid_cell = (\<lambda>(coef, var). coef \<noteq> NaN \<and> var \<noteq> Some (- 1))"

definition term_line :: "pyfloat \<times> label \<Rightarrow> string" where
  "term_line = (\<lambda>(coef, var). to_float_str coef @ '' x'' @ to_int_str var @ nl)"

definition valid_row :: "con_row \<Rightarrow> bool" where
  "valid_row row =
     ((\<exists>t \<in> set (lhs row). valid_cell t) \<and> con row \<noteq> Some (- 1) \<and> sign row \<noteq> None
        \<and> rhs row \<noteq> NaN)"

definition sign_token :: "con_row \<Rightarrow> string" where
  "sign_token row = (case sign row of None \<Rightarrow> [] | Some t \<Rightarrow> t)"

definition block :: "con_row \<Rightarrow> string" where
  "block row =
     ''c'' @ to_int_str (con row) @ '': '' @ nl
       @ concat (map term_line (filter valid_cell (lhs row)))
       @ sign_token row @ nl @ to_float_str (rhs row) @ nl @ nl"

definition valid_bound :: "var_row \<Rightarrow> bool" where
  "valid_bound row =
     (lower_bound row \<noteq> NaN \<and> upper_bound row \<noteq> NaN \<and> var row \<noteq> Some (- 1))"

definition bound_line :: "var_row \<Rightarrow> string" where
  "bound_line row =
     to_float_str (lower_bound row) @ '' <= x'' @ to_int_str (var row) @ '' <= ''
       @ to_float_str (upper_bound row) @ nl"

definition binary_line :: "label \<Rightarrow> string" where
  "binary_line v = ''x'' @ to_int_str v @ nl"

definition masked :: "('a \<Rightarrow> bool) \<Rightarrow> ('a \<Rightarrow> string) \<Rightarrow> 'a \<Rightarrow> string" where
  "masked valid line x = (if valid x then line x else [])"


text \<open>The shapes of the formatted numbers.\<close>

definition is_digit :: "char \<Rightarrow> bool" where
  "is_digit c = (c \<in> set ''0123456789'')"

definition plain_decimal :: "string \<Rightarrow> bool" where
  "plain_decimal s = (s \<noteq> [] \<and> list_all is_digit s \<and> (s = ''0'' \<or> hd s \<noteq> CHR ''0''))"

definition signed_fixed6 :: "string \<Rightarrow> bool" where
  "signed_fixed6 s =
     (case s of [] \<Rightarrow> False
      | c # r \<Rightarrow>
          (c = CHR ''+'' \<or> c = CHR ''-'') \<and> plain_decimal (takeWhile is_digit r)
            \<and> (case dropWhile is_digit r of [] \<Rightarrow> False
                | d # fp \<Rightarrow> d = CHR ''.'' \<and> length fp = 6 \<and> list_all is_digit fp))"

section \<open>Example models\<close>

text \<open>
  The model of the specification's example: objective \<open>1 x0\<close>, one constraint
  \<open>2 x0 + 3 x1 <= 10\<close> with label 0, no binaries. Its two variables have null bounds in
  \<open>example_model\<close>; in \<open>example_model_bare\<close> the variable tables are empty.
\<close>

definition example_row :: con_row where
  "example_row =
     \<lparr>con = Some 0, lhs = [(Finite False 2 0, Some 0), (Finite False 3 0, Some 1)],
      sign = Some ''<='', rhs = Finite False 10 0\<rparr>"

definition example_model :: model where
  "example_model =
     \<lparr>objective = [(Finite False 1 0, Some 0)],
      constraints = [(''con0'', [example_row])],
      variables = [(''x'', [\<lparr>lower_bound = NaN, var = Some 0, upper_bound = NaN\<rparr>,
                           \<lparr>lower_bound = NaN, var = Some 1, upper_bound = NaN\<rparr>])],
      non_binary_variables = [''x''],
      binaries = []\<rparr>"

definition example_model_bare :: model where
  "example_model_bare = example_model\<lparr>variables := [], non_binary_variables := []\<rparr>"

definition example_text :: string where
  "example_text =
     ''min'' @ nl @ ''obj:'' @ nl @ ''+1.000000 x0'' @ nl @ nl @ nl @ ''s.t.'' @ nl @ nl
       @ ''c0: '' @ nl @ ''+2.000000 x0'' @ nl @ ''+3.000000 x1'' @ nl @ ''<='' @ nl
       @ ''+10.000000'' @ nl @ nl @ nl @ ''bounds'' @ nl @ nl @ ''binary'' @ nl @ ''end'' @ nl"

definition example_sink :: sink where
  "example_sink =
     [''min'' @ nl @ ''obj:'' @ nl, ''+1.000000 x0'' @ nl, nl @ nl @ ''s.t.'' @ nl @ nl,
      ''c0: '' @ nl @ ''+2.000000 x0'' @ nl @ ''+3.000000 x1'' @ nl @ ''<='' @ nl
        @ ''+10.000000'' @ nl @ nl,
      nl @ ''bounds'' @ nl, [], [], nl @ ''binary'' @ nl, ''end'' @ nl]"

text \<open>A model whose only constraint row has a null sign.\<close>

definition null_sign_row :: con_row where
  "null_sign_row =
     \<lparr>con = Some 0, lhs = [(Finite False 1 0, Some 0)], sign = None, rhs = Finite False 1 0\<rparr>"

definition null_sign_model :: model where
  "null_sign_model = example_model\<lparr>constraints := [(''con0'', [null_sign_row])]\<rparr>"

text \<open>A model whose constraint table holds the label 1 before the label 0.\<close>

definition row_c1 :: con_row where
  "row_c1 = \<lparr>con = Some 1, lhs = [(Finite False 1 0, Some 0)], sign = Some ''>='',
             rhs = Finite False 1 0\<rparr>"

definition row_c0 :: con_row where
  "row_c0 = \<lparr>con = Some 0, lhs = [(Finite False 1 0, Some 1)], sign = Some ''<='',
             rhs = Finite False 2 0\<rparr>"

definition descending_model :: model where
  "descending_model = example_model\<lparr>constraints := [(''con0'', [row_c1, row_c0])]\<rparr>"

definition descending_sink :: sink where
  "descending_sink =
     [nl @ nl @ ''s.t.'' @ nl @ nl,
      ''c1: '' @ nl @ ''+1.000000 x0'' @ nl @ ''>='' @ nl @ ''+1.000000'' @ nl @ nl,
      ''c0: '' @ nl @ ''+1.000000 x1'' @ nl @ ''<='' @ nl @ ''+2.000000'' @ nl @ nl]"

text \<open>
  The \<open>s.t.\<close> section with its blocks in ascending order of constraint label: the blocks of
  the valid rows, sorted by label.
\<close>

definition con_label :: "con_row \<Rightarrow> int" where
  "con_label row = fillna0_label (con row)"

definition ascending_blocks :: "con_row list \<Rightarrow> string" where
  "ascending_blocks rows = concat (map block (sort_key con_label (filter valid_row rows)))"

text \<open>A model with a binary variable, bounds on \<open>x0\<close> and a null upper bound on \<open>x1\<close>.\<close>

definition bounded_model :: model where
  "bounded_model =
     \<lparr>objective = [(Finite False 0 0, Some 0), (Finite False 1 0, None), (NaN, Some 1)],
      constraints = [(''con0'', [example_row])],
      variables = [(''x'', [\<lparr>lower_bound = Finite False 0 0, var = Some 0,
                             upper_bound = Finite False 5 0\<rparr>,
                           \<lparr>lower_bound = Finite False 0 0, var = Some 1, upper_bound = NaN\<rparr>]),
                   (''b'', [\<lparr>lower_bound = Finite False 0 0, var = Some 2,
                             upper_bound = Finite False 1 0\<rparr>])],
      non_binary_variables = [''x''],
      binaries = [(''b'', [Some 2, None])]\<rparr>"

text \<open>
  A ragged constraint table: four rows over a term axis of width four, padded with
  sentinel labels and null coefficients; the second row has the sentinel as its own
  label and the fourth has no valid term.
\<close>

definition ragged_model :: model where
  "ragged_model =
     example_model\<lparr>constraints :=
       [(''con0'',
         [\<lparr>con = Some 0,
           lhs = [(Finite False 2 0, Some 0), (NaN, Some 1), (Finite False 3 0, Some (- 1)),
                  (Finite True 1 0, Some 2)],
           sign = Some ''<='', rhs = Finite False 10 0\<rparr>,
          \<lparr>con = Some (- 1),
           lhs = [(Finite False 1 0, Some 0), (NaN, Some (- 1)), (NaN, Some (- 1)),
                  (NaN, Some (- 1))],
           sign = Some ''='', rhs = Finite False 0 0\<rparr>,
          \<lparr>con = Some 2,
           lhs = [(NaN, Some (- 1)), (Finite False 4 0, Some 1), (NaN, Some (- 1)),
                  (NaN, Some (- 1))],
           sign = Some ''>='', rhs = Finite True 1 (- 1)\<rparr>,
          \<lparr>con = Some 3,
           lhs = [(NaN, Some 0), (Finite False 4 0, Some (- 1)), (NaN, Some (- 1)),
                  (NaN, Some (- 1))],
           sign = Some ''>='', rhs = Finite False 1 0\<rparr>])]\<rparr>"

definition ragged_sink :: sink where
  "ragged_sink =
     [nl @ nl @ ''s.t.'' @ nl @ nl,
      ''c0: '' @ nl @ ''+2.000000 x0'' @ nl @ ''-1.000000 x2'' @ nl @ ''<='' @ nl
        @ ''+10.000000'' @ nl @ nl,
      [],
      ''c2: '' @ nl @ ''+4.000000 x1'' @ nl @ ''>='' @ nl @ ''-0.500000'' @ nl @ nl,
      []]"



text \<open>
  A snapshot example: the cells are integers, scalar attributes are strings. The model
  has no variables and no constraint labels, a ragged table of constraint coefficients,
  and an objective with no valid term (a null coefficient, a sentinel label).
\<close>

definition is_term_table :: "'t entity \<Rightarrow> bool" where
  "is_term_table e = (case e of Table vs \<Rightarrow> False | TermTable vs \<Rightarrow> True)"

definition snap_array_attrs :: "string list" where
  "snap_array_attrs = [''variables'', ''constraints'', ''constraints_lhs_coeffs'', ''objective'']"

definition snap_obj_attrs :: "string list" where
  "snap_obj_attrs = [''status'', ''objective_value'']"

definition term_axis :: "string \<times> index" where
  "term_axis = (''_term'', Labeled [0, 1])"

definition snap_model :: "(int table, string) pymodel" where
  "snap_model =
     \<lparr>arrays = (\<lambda>a. if a = ''objective''
                      then TermTable [(''coeffs'', \<lparr>axes = [term_axis], tdata = [None, Some 1]\<rparr>),
                                      (''vars'', \<lparr>axes = [term_axis], tdata = [Some 0, Some (- 1)]\<rparr>)]
                      else if a = ''constraints_lhs_coeffs''
                      then Table [(''con-0'',
                                   \<lparr>axes = [(''dim_0'', Unlabeled 2), (''con-0_term'', Labeled [0, 1])],
                                    tdata = [Some 2, Some 3, Some 1, None]\<rparr>)]
                      else Table []),
      scalars = (\<lambda>k. if k = ''status'' then ''ok'' else ''nan'')\<rparr>"

definition fresh_table_model :: "(int table, string) pymodel" where
  "fresh_table_model = \<lparr>arrays = (\<lambda>a. Table []), scalars = (\<lambda>k. [])\<rparr>"

text \<open>
  A model whose variables are indexed by the labels 0, 1, 2 on \<open>dim_0\<close> and whose
  constraints by the labels 0, 1 on the same dimension.
\<close>

definition misaligned_model :: "(int table, string) pymodel" where
  "misaligned_model =
     \<lparr>arrays = (\<lambda>a. if a = ''variables''
                      then Table [(''x'', \<lparr>axes = [(''dim_0'', Labeled [0, 1, 2])],
                                           tdata = [Some 0, Some 1, Some 2]\<rparr>)]
                      else if a = ''constraints''
                      then Table [(''c'', \<lparr>axes = [(''dim_0'', Labeled [0, 1])],
                                           tdata = [Some 0, Some 1]\<rparr>)]
                      else if a = ''objective'' then TermTable []
                      else Table []),
      scalars = (\<lambda>k. ''ok'')\<rparr>"

text \<open>What \<open>xr.merge\<close> makes of it: the table of the constraints is padded with a null.\<close>

definition misaligned_file :: "(int table, string) xr_dataset" where
  "misaligned_file =
     \<lparr>data_vars =
        [(''variables-x'', \<lparr>axes = [(''dim_0'', Labeled [0, 1, 2])],
                              tdata = [Some 0, Some 1, Some 2]\<rparr>),
         (''constraints-c'', \<lparr>axes = [(''dim_0'', Labeled [0, 1, 2])],
                                tdata = [Some 0, Some 1, None]\<rparr>)],
      attrs = [(''status'', ''ok''), (''objective_value'', ''ok'')]\<rparr>"

text \<open>The same tables without coordinate labels on \<open>dim_0\<close>: sizes 3 and 2.\<close>

definition unlabeled_model :: "(int table, string) pymodel" where
  "unlabeled_model =
     \<lparr>arrays = (\<lambda>a. if a = ''variables''
                      then Table [(''x'', \<lparr>axes = [(''dim_0'', Unlabeled 3)],
                                           tdata = [Some 0, Some 1, Some 2]\<rparr>)]
                      else if a = ''constraints''
                      then Table [(''c'', \<lparr>axes = [(''dim_0'', Unlabeled 2)],
                                           tdata = [Some 0, Some 1]\<rparr>)]
                      else if a = ''objective'' then TermTable []
                      else Table []),
      scalars = (\<lambda>k. ''ok'')\<rparr>"

text \<open>
  The tables of the categories of a model, and their agreement on the dimensions they
  share: one index for each dimension name.
\<close>

definition tables_of :: "string list \<Rightarrow> ('c table, 'v) pymodel \<Rightarrow> 'c table list" where
  "tables_of array_attrs m = concat (map (\<lambda>a. map snd (fields_of (arrays m a))) array_attrs)"

definition agree_on_dims :: "'c table list \<Rightarrow> bool" where
  "agree_on_dims ts =
     (\<forall>(d, ix) \<in> set (concat (map axes ts)). \<forall>(d', ix') \<in> set (concat (map axes ts)).
        d = d' \<longrightarrow> ix = ix')"

text \<open>Containers whose tables are lists of floats, and a fresh model for them.\<close>

definition fresh_model :: "(pyfloat list, string) pymodel" where
  "fresh_model = \<lparr>arrays = (\<lambda>a. Table []), scalars = (\<lambda>k. [])\<rparr>"

text \<open>A container with every scalar attribute and no data variable of the category \<open>constraints\<close>.\<close>

definition no_constraints_file :: "(pyfloat list, string) xr_dataset" where
  "no_constraints_file =
     \<lparr>data_vars = [(''objective-coeffs'', [Finite False 1 0]), (''objective-vars'', [Finite False 0 0])],
      attrs = [(''status'', ''ok''), (''objective_value'', ''nan'')]\<rparr>"

text \<open>A container without the scalar attribute \<open>objective_value\<close>.\<close>

definition no_value_file :: "(pyfloat list, string) xr_dataset" where
  "no_value_file = no_constraints_file\<lparr>attrs := [(''status'', ''ok'')]\<rparr>"

section \<open>Facts about the string pipeline\<close>

lemma reduce_add_strs: "reduce_add acc (map PyStr xs) = Inr (acc @ concat xs)"
  by (induction xs arbitrary: acc) simp_all

lemma join_str_arrays_strs: "join_str_arrays (map PyStr xs) = Inr (concat xs)"
  by (simp add: join_str_arrays_def reduce_add_strs)

lemma all_ok_Inr: "all_ok (map (\<lambda>x. Inr (g x)) xs) = Inr (map g xs)"
  by (induction xs) simp_all

lemma all_ok_map_Inr: "(\<And>x. x \<in> set xs \<Longrightarrow> h x = Inr (g x)) \<Longrightarrow> all_ok (map h xs) = Inr (map g xs)"
  by (induction xs) simp_all

lemma all_ok_map_Inl:
  "x \<in> set xs \<Longrightarrow> h x = Inl e \<Longrightarrow> (\<And>y. y \<in> set xs \<Longrightarrow> h y = Inl e \<or> (\<exists>z. h y = Inr z))
    \<Longrightarrow> all_ok (map h xs) = Inl e"
proof (induction xs)
  case Nil then show ?case by simp
next
  case (Cons a xs)
  show ?case
  proof (cases "h a")
    case (Inl e') 
    with Cons.prems(3)[of a] show ?thesis by auto
  next
    case (Inr z)
    with Cons.prems have "x \<in> set xs" by auto
    with Cons have "all_ok (map h xs) = Inl e" by auto
    with Inr show ?thesis by simp
  qed
qed

lemma str_array_to_file_append: "str_array_to_file strs f = f @ strs"
  unfolding str_array_to_file_def
  by (induction strs arbitrary: f) (simp_all add: fwrite_def)

lemma objective_str_eq: "objective_str t = Inr (masked valid_cell term_line t)"
proof -
  obtain coef var where t: "t = (coef, var)" by (cases t)
  have "join_str_arrays (map PyStr [to_float_str coef, '' x'', to_int_str var, nl])
      = Inr (concat [to_float_str coef, '' x'', to_int_str var, nl])"
    by (rule join_str_arrays_strs)
  then show ?thesis
    by (simp add: t objective_str_def masked_def valid_cell_def term_line_def where_else_def notnull_def)
qed

lemma objective_to_file_eq:
  "objective_to_file m f = Inr (f @ [''min'' @ nl @ ''obj:'' @ nl] @ map (masked valid_cell term_line) (objective m))"
  by (simp add: objective_to_file_def objective_str_eq[abs_def] all_ok_Inr str_array_to_file_append fwrite_def)

lemma concat_masked: "concat (map (masked P g) xs) = concat (map g (filter P xs))"
  by (induction xs) (simp_all add: masked_def)

lemma np_any_iff: "np_any bs = (True \<in> set bs)"
  by (induction bs) (auto simp: np_any_def)

lemma lhs_str_eq:
  "lhs_str terms = Inr (if terms = [] then PyInt 0 else PyStr (concat (map term_line (filter valid_cell terms))))"
proof -
  have j: "\<And>coef var. join_str_arrays [PyStr (to_float_str coef), PyStr '' x'', PyStr (to_int_str var), PyStr nl]
      = Inr (term_line (coef, var))"
    using join_str_arrays_strs[of "[a, b, c, d]" for a b c d] by (simp add: term_line_def)
  have a: "all_ok (map (\<lambda>(coef, var). join_str_arrays
               [PyStr (to_float_str coef), PyStr '' x'', PyStr (to_int_str var), PyStr nl]) terms)
        = Inr (map term_line terms)"
    by (rule all_ok_map_Inr) (auto simp: j)
  have z: "map2 (\<lambda>s (coef, var). where_else s (notnull coef \<and> var \<noteq> Some (- 1)) []) (map term_line terms) terms
      = map (masked valid_cell term_line) terms"
    by (induction terms) (auto simp: masked_def valid_cell_def where_else_def notnull_def)
  show ?thesis
    by (simp add: lhs_str_def a z np_sum_def concat_masked)
qed

lemma constraints_str_eq:
  "constraints_str row =
     (if lhs row = [] \<or> sign row = None then Inl TypeError else Inr (masked valid_row block row))"
proof (cases "lhs row = []")
  case True
  then show ?thesis
    by (simp add: constraints_str_def lhs_str_eq join_str_arrays_def)
next
  case ne: False
  show ?thesis
  proof (cases "sign row")
    case None
    with ne show ?thesis
      by (simp add: constraints_str_def lhs_str_eq join_str_arrays_def sign_obj_def)
  next
    case (Some t)
    have v: "np_any (map (\<lambda>(coef, var). coef \<noteq> NaN \<and> var \<noteq> Some (- 1)) (lhs row))
         = (\<exists>t \<in> set (lhs row). valid_cell t)"
      by (auto simp: np_any_iff valid_cell_def notnull_def)
    have j: "join_str_arrays (map PyStr [''c'', to_int_str (con row), '': '' @ nl,
               concat (map term_line (filter valid_cell (lhs row))), t, nl, to_float_str (rhs row), nl @ nl])
        = Inr (block row)"
      unfolding join_str_arrays_strs by (simp add: block_def sign_token_def Some)
    show ?thesis using ne Some j
      by (simp add: constraints_str_def lhs_str_eq sign_obj_def v masked_def valid_row_def where_else_def notnull_def)
  qed
qed

lemma constraints_to_file_eq:
  "constraints_to_file m f =
     (if \<exists>row \<in> set (cells (constraints m)). lhs row = [] \<or> sign row = None then Inl TypeError
      else Inr (f @ [nl @ nl @ ''s.t.'' @ nl @ nl] @ map (masked valid_row block) (cells (constraints m))))"
proof (cases "\<exists>row \<in> set (cells (constraints m)). lhs row = [] \<or> sign row = None")
  case True
  then obtain row where r: "row \<in> set (cells (constraints m))" "constraints_str row = Inl TypeError"
    by (auto simp: constraints_str_eq)
  have "all_ok (map constraints_str (cells (constraints m))) = Inl TypeError"
    by (rule all_ok_map_Inl[where h = constraints_str and x = row, OF r]) (simp add: constraints_str_eq)
  with True show ?thesis by (simp add: constraints_to_file_def)
next
  case False
  then have "all_ok (map constraints_str (cells (constraints m))) = Inr (map (masked valid_row block) (cells (constraints m)))"
    by (intro all_ok_map_Inr) (auto simp: constraints_str_eq)
  with False show ?thesis
    by (simp add: constraints_to_file_def str_array_to_file_append fwrite_def)
qed

lemma bounds_str_eq: "bounds_str row = Inr (masked valid_bound bound_line row)"
proof -
  have "join_str_arrays (map PyStr [to_float_str (lower_bound row), '' <= x'', to_int_str (var row), '' <= '',
          to_float_str (upper_bound row), nl]) = Inr (bound_line row)"
    unfolding join_str_arrays_strs by (simp add: bound_line_def)
  then show ?thesis
    by (simp add: bounds_str_def masked_def valid_bound_def where_else_def notnull_def Let_def)
qed

lemma binaries_str_eq: "binaries_str v = Inr (masked (\<lambda>v. v \<noteq> Some (- 1)) binary_line v)"
proof -
  have "join_str_arrays (map PyStr [''x'', to_int_str v, nl]) = Inr (binary_line v)"
    unfolding join_str_arrays_strs by (simp add: binary_line_def)
  then show ?thesis
    by (simp add: binaries_str_def masked_def where_else_def)
qed

lemma select_present:
  "set names \<subseteq> fst ` set ds \<Longrightarrow>
     select ds names = Inr (map (\<lambda>n. (n, the (map_of ds n))) names)"
proof -
  assume a: "set names \<subseteq> fst ` set ds"
  have "\<And>n. n \<in> set names \<Longrightarrow> \<exists>v. map_of ds n = Some v"
  proof -
    fix n assume "n \<in> set names"
    with a have "n \<in> fst ` set ds" by blast
    then have "map_of ds n \<noteq> None" by (simp add: map_of_eq_None_iff)
    then show "\<exists>v. map_of ds n = Some v" by blast
  qed
  then have "\<And>n. n \<in> set names \<Longrightarrow>
      (case map_of ds n of None \<Rightarrow> Inl (KeyError n) | Some a \<Rightarrow> Inr (n, a)) = Inr (n, the (map_of ds n))"
    by fastforce
  then show ?thesis
    unfolding select_def by (rule all_ok_map_Inr)
qed

lemma select_missing:
  "n \<in> set names \<Longrightarrow> n \<notin> fst ` set ds \<Longrightarrow> \<exists>k. select ds names = Inl (KeyError k)"
proof (induction names)
  case Nil then show ?case by simp
next
  case (Cons a names)
  show ?case
  proof (cases "map_of ds a")
    case None then show ?thesis by (simp add: select_def)
  next
    case (Some v)
    with Cons.prems have "n \<in> set names" by (auto simp: map_of_eq_None_iff[symmetric])
    from Cons.IH[OF this Cons.prems(2)] obtain k where "select ds names = Inl (KeyError k)" by blast
    with Some show ?thesis by (simp add: select_def)
  qed
qed

lemma bounds_to_file_eq:
  "bounds_to_file m f =
     (case select (variables m) (non_binary_variables m) of Inl e \<Rightarrow> Inl e
      | Inr sel \<Rightarrow> Inr (f @ [nl @ ''bounds'' @ nl] @ map (masked valid_bound bound_line) (cells sel)))"
  by (simp add: bounds_to_file_def bounds_str_eq[abs_def] all_ok_Inr str_array_to_file_append fwrite_def split: sum.splits)

lemma binaries_to_file_eq:
  "binaries_to_file m f =
     Inr (f @ [nl @ ''binary'' @ nl] @ map (masked (\<lambda>v. v \<noteq> Some (- 1)) binary_line) (cells (binaries m)) @ [''end'' @ nl])"
  by (simp add: binaries_to_file_def binaries_str_eq[abs_def] all_ok_Inr str_array_to_file_append fwrite_def)

lemmas fmt_eval = to_float_str_def to_int_str_def fmt_d_def fillna0_def fillna0_label_def micro_def
  frac6_def dec_str.simps digit_char_def round_half_even_def Let_def

lemmas line_eval = masked_def valid_cell_def valid_row_def valid_bound_def term_line_def block_def
  sign_token_def bound_line_def binary_line_def cells_def select_def

lemma to_file_eq:
  "to_file m =
     (if \<exists>row \<in> set (cells (constraints m)). lhs row = [] \<or> sign row = None then Inl TypeError
      else case select (variables m) (non_binary_variables m) of Inl e \<Rightarrow> Inl e
      | Inr sel \<Rightarrow> Inr (
         [''min'' @ nl @ ''obj:'' @ nl] @ map (masked valid_cell term_line) (objective m)
         @ [nl @ nl @ ''s.t.'' @ nl @ nl] @ map (masked valid_row block) (cells (constraints m))
         @ [nl @ ''bounds'' @ nl] @ map (masked valid_bound bound_line) (cells sel)
         @ [nl @ ''binary'' @ nl]
         @ map (masked (\<lambda>v. v \<noteq> Some (- 1)) binary_line) (cells (binaries m))
         @ [''end'' @ nl]))"
  by (auto simp: to_file_def objective_to_file_eq constraints_to_file_eq bounds_to_file_eq
      binaries_to_file_eq split: sum.splits if_splits)

lemma to_file_example: "to_file example_model = Inr example_sink"
  by (simp add: to_file_eq example_model_def example_row_def line_eval fmt_eval example_sink_def)

lemma micro_zero: "micro 0 e = 0"
  by (simp add: micro_def round_half_even_def)

lemma to_float_str_zero: "to_float_str (Finite False 0 e) = ''+0.000000''"
  by (simp add: to_float_str_def fillna0_def micro_zero frac6_def dec_str.simps digit_char_def)

lemma to_float_str_neg_zero: "to_float_str (Finite True 0 e) = ''-0.000000''"
  by (simp add: to_float_str_def fillna0_def micro_zero frac6_def dec_str.simps digit_char_def)

lemma map_of_filter_names:
  "n \<in> S \<Longrightarrow> map_of (filter (\<lambda>(k, v). k \<in> S) ds) n = map_of ds n"
  by (induction ds) auto

lemma select_filter_names:
  "select (filter (\<lambda>(n, rows). n \<in> set names) ds) names = select ds names"
  unfolding select_def
  by (rule arg_cong[where f = all_ok], rule map_cong) (simp_all add: map_of_filter_names)

section \<open>The formatted numbers\<close>

lemma digit_cases: "r < 10 \<Longrightarrow> r = 0 \<or> r = 1 \<or> r = 2 \<or> r = 3 \<or> r = 4 \<or> r = 5 \<or> r = 6 \<or> r = 7 \<or> r = 8 \<or> r = (9::nat)"
  by arith

lemma is_digit_digit_char: "is_digit (digit_char d)"
proof -
  have "d mod 10 < length ''0123456789''" by simp
  then have "''0123456789'' ! (d mod 10) \<in> set ''0123456789''" by (rule nth_mem)
  then show ?thesis unfolding is_digit_def digit_char_def .
qed

lemma digit_char_zero: "digit_char d = CHR ''0'' \<Longrightarrow> d mod 10 = 0"
proof -
  assume a: "digit_char d = CHR ''0''"
  have "d mod 10 < 10" by simp
  from digit_cases[OF this] a show ?thesis
    by (auto simp: digit_char_def)
qed

lemma dec_str_ne: "dec_str n \<noteq> []"
  by (subst dec_str.simps) simp

lemma dec_str_digits: "list_all is_digit (dec_str n)"
proof (induction n rule: dec_str.induct)
  case (1 n)
  show ?case
  proof (cases "n < 10")
    case True
    then show ?thesis by (subst dec_str.simps) (simp add: is_digit_digit_char)
  next
    case False
    with 1 show ?thesis by (subst dec_str.simps) (simp add: is_digit_digit_char)
  qed
qed

lemma dec_str_hd: "hd (dec_str n) = CHR ''0'' \<Longrightarrow> n = 0"
proof (induction n rule: dec_str.induct)
  case (1 n)
  show ?case
  proof (cases "n < 10")
    case True
    with 1(2) have "digit_char n = CHR ''0''" by (subst (asm) dec_str.simps) simp
    from digit_char_zero[OF this] True show ?thesis by simp
  next
    case False
    with 1(2) have "hd (dec_str (n div 10)) = CHR ''0''"
      by (subst (asm) dec_str.simps) (simp add: dec_str_ne)
    with 1(1) False have "n div 10 = 0" by simp
    with False show ?thesis by simp
  qed
qed

lemma dec_str_0: "dec_str 0 = ''0''"
  by (simp add: dec_str.simps digit_char_def)

lemma plain_decimal_dec_str: "plain_decimal (dec_str n)"
  unfolding plain_decimal_def
  using dec_str_ne dec_str_digits dec_str_hd dec_str_0 by metis

lemma frac6_shape: "length (frac6 n) = 6 \<and> list_all is_digit (frac6 n)"
  by (simp add: frac6_def is_digit_digit_char)

lemma not_digit_point: "\<not> is_digit CHR ''.''"
  by (simp add: is_digit_def)

lemma signed_fixed6_intro:
  assumes "c = CHR ''+'' \<or> c = CHR ''-''" "plain_decimal ip" "length fp = 6" "list_all is_digit fp"
  shows "signed_fixed6 (c # ip @ ''.'' @ fp)"
proof -
  have d: "list_all is_digit ip" using assms(2) by (simp add: plain_decimal_def)
  then have t: "takeWhile is_digit (ip @ CHR ''.'' # fp) = ip"
    by (simp add: takeWhile_tail not_digit_point list_all_iff)
  have "dropWhile is_digit (ip @ CHR ''.'' # fp) = CHR ''.'' # fp"
    using d by (simp add: dropWhile_append3 not_digit_point list_all_iff)
  with t assms show ?thesis by (simp add: signed_fixed6_def)
qed

lemma signed_fixed6_elim:
  assumes "signed_fixed6 s"
  shows "\<exists>c ip fp. s = c # ip @ ''.'' @ fp \<and> (c = CHR ''+'' \<or> c = CHR ''-'') \<and> plain_decimal ip
            \<and> length fp = 6 \<and> list_all is_digit fp"
proof -
  from assms obtain c r where s: "s = c # r" and c: "c = CHR ''+'' \<or> c = CHR ''-''"
    and p: "plain_decimal (takeWhile is_digit r)"
    and dr: "(case dropWhile is_digit r of [] \<Rightarrow> False
                | d # fp \<Rightarrow> d = CHR ''.'' \<and> length fp = 6 \<and> list_all is_digit fp)"
    by (auto simp: signed_fixed6_def split: list.splits)
  from dr obtain fp where f: "dropWhile is_digit r = CHR ''.'' # fp" "length fp = 6" "list_all is_digit fp"
    by (auto split: list.splits)
  have "r = takeWhile is_digit r @ dropWhile is_digit r" by simp
  with f have "r = takeWhile is_digit r @ ''.'' @ fp" by simp
  with s c p f show ?thesis by blast
qed

text \<open>
  C5 (amended). Every float that is finite or null (null is replaced by 0) is rendered as
  one sign character, \<open>+\<close> or \<open>-\<close>, followed by a plain decimal integer part, a point and
  exactly six decimal digits: no exponent, no separator. Every label that is null (replaced
  by 0) or not negative is rendered as a plain decimal integer, with no sign and no leading
  zero. (An infinity is rendered as its sign and \<open>inf\<close>, a negative label with a minus
  sign, see the counterexample.)
\<close>

theorem formatting_shape:
  assumes "\<forall>s. f \<noteq> Infinity s" and "0 \<le> fillna0_label d"
  shows "(\<exists>c ip fp. to_float_str f = c # ip @ ''.'' @ fp \<and> (c = CHR ''+'' \<or> c = CHR ''-'')
            \<and> plain_decimal ip \<and> length fp = 6 \<and> list_all is_digit fp)
       \<and> signed_fixed6 (to_float_str f) \<and> plain_decimal (to_int_str d)"
proof -
  obtain s m e where fin: "fillna0 f = Finite s m e"
    using assms(1) by (cases f) (auto simp: fillna0_def)
  have eq: "to_float_str f = (if s then CHR ''-'' else CHR ''+'')
      # dec_str (micro m e div 1000000) @ ''.'' @ frac6 (micro m e mod 1000000)"
    by (simp add: to_float_str_def fin)
  have a: "signed_fixed6 (to_float_str f)"
    unfolding eq by (rule signed_fixed6_intro) (simp_all add: plain_decimal_dec_str frac6_shape)
  have b: "plain_decimal (to_int_str d)"
    using assms(2) by (simp add: to_int_str_def fmt_d_def plain_decimal_dec_str)
  from a b signed_fixed6_elim[OF a] show ?thesis by blast
qed

theorem formatting_shape_witness:
  "(\<forall>s. Finite True 3 (- 1) \<noteq> Infinity s) \<and> 0 \<le> fillna0_label (Some 120)
   \<and> to_float_str (Finite True 3 (- 1)) = ''-1.500000'' \<and> to_int_str (Some 120) = ''120''
   \<and> signed_fixed6 ''-1.500000'' \<and> plain_decimal ''120''"
proof -
  have h1: "\<forall>s. Finite True 3 (- 1) \<noteq> Infinity s" by simp
  have h2: "0 \<le> fillna0_label (Some 120)" by (simp add: fillna0_label_def)
  have e1: "to_float_str (Finite True 3 (- 1)) = ''-1.500000''"
    by (simp add: to_float_str_def fillna0_def micro_def frac6_def dec_str.simps digit_char_def round_half_even_def Let_def)
  have e2: "to_int_str (Some 120) = ''120''"
    by (simp add: to_int_str_def fmt_d_def fillna0_label_def dec_str.simps digit_char_def)
  from formatting_shape [OF h1 h2] have "signed_fixed6 (to_float_str (Finite True 3 (- 1)))"
    and "plain_decimal (to_int_str (Some 120))" by blast+
  with h1 h2 e1 e2 show ?thesis by simp
qed

text \<open>
  C5 as stated fails for an infinite float, which bounds commonly are: \<open>+inf\<close> has no
  fractional digits. It also fails for the sentinel label, which is rendered \<open>-1\<close>, with a
  sign.
\<close>

theorem infinity_and_sentinel_counterexample:
  "to_float_str (Infinity False) = ''+inf'' \<and> \<not> signed_fixed6 (to_float_str (Infinity False))
   \<and> to_int_str (Some (- 1)) = ''-1'' \<and> \<not> plain_decimal (to_int_str (Some (- 1)))"
  by (simp add: to_float_str_def fillna0_def to_int_str_def fillna0_label_def fmt_d_def
      dec_str.simps digit_char_def signed_fixed6_def plain_decimal_def is_digit_def)

section \<open>The text export: the example and the order of the sections\<close>

text \<open>
  C2. For the model with objective \<open>1 x0\<close> and the single constraint
  \<open>2 x0 + 3 x1 <= 10\<close> (variable labels 0 and 1, constraint label 0), with no bounds
  and no binaries, the export succeeds and the content of the file is exactly the text
  of the specification's example. This holds both when the two variables have null
  bounds and when the variable tables are empty.
\<close>

theorem example_export:
  "(\<exists>out. to_file example_model = Inr out \<and> content out = example_text)
   \<and> (\<exists>out. to_file example_model_bare = Inr out \<and> content out = example_text)"
  by (simp add: to_file_eq example_model_def example_model_bare_def example_row_def line_eval
      fmt_eval content_def example_text_def)

text \<open>
  C6. Whenever the export returns, the strings written to the sink are, in this order
  and with nothing in between: the objective header and the masked objective lines, the
  header of the constraints and one string per constraint row, the bounds header and one
  string per selected variable row, the binary header and one string per binary entry,
  and the terminator. Each section is written whole before the next header.
\<close>

theorem to_file_sections:
  assumes "to_file m = Inr out"
  shows "\<exists>sel. select (variables m) (non_binary_variables m) = Inr sel \<and>
     out = [''min'' @ nl @ ''obj:'' @ nl] @ map (masked valid_cell term_line) (objective m)
         @ [nl @ nl @ ''s.t.'' @ nl @ nl] @ map (masked valid_row block) (cells (constraints m))
         @ [nl @ ''bounds'' @ nl] @ map (masked valid_bound bound_line) (cells sel)
         @ [nl @ ''binary'' @ nl]
         @ map (masked (\<lambda>v. v \<noteq> Some (- 1)) binary_line) (cells (binaries m))
         @ [''end'' @ nl]"
  using assms by (auto simp: to_file_eq split: sum.splits if_splits)

theorem to_file_sections_witness:
  "to_file example_model = Inr example_sink \<and>
   (\<exists>sel. select (variables example_model) (non_binary_variables example_model) = Inr sel \<and>
     example_sink =
       [''min'' @ nl @ ''obj:'' @ nl] @ map (masked valid_cell term_line) (objective example_model)
         @ [nl @ nl @ ''s.t.'' @ nl @ nl]
         @ map (masked valid_row block) (cells (constraints example_model))
         @ [nl @ ''bounds'' @ nl] @ map (masked valid_bound bound_line) (cells sel)
         @ [nl @ ''binary'' @ nl]
         @ map (masked (\<lambda>v. v \<noteq> Some (- 1)) binary_line) (cells (binaries example_model))
         @ [''end'' @ nl])"
  using to_file_sections [OF to_file_example] to_file_example by blast

section \<open>The text export: what a cell and a row contribute\<close>







text \<open>
  C10. When every name in \<open>non_binary_variables\<close> is a data variable of \<open>variables\<close>, the
  bounds section is its header followed by one string for each row of the variables named
  there, in that order: the line \<open><lb> <= x<id> <= <ub>\<close> when the lower bound is not null,
  the upper bound is not null and the label is not \<open>-1\<close>, and the empty string otherwise (a
  null bound is not printed as 0). Rows of variables that are not named in
  \<open>non_binary_variables\<close>, the binary ones, are not selected and contribute nothing:
  dropping them from \<open>variables\<close> leaves the section as it is.
\<close>

theorem bounds_lines:
  assumes "set (non_binary_variables m) \<subseteq> fst ` set (variables m)"
  shows "bounds_to_file m f =
     Inr (f @ [nl @ ''bounds'' @ nl]
            @ map (\<lambda>row. if lower_bound row \<noteq> NaN \<and> upper_bound row \<noteq> NaN \<and> var row \<noteq> Some (- 1)
                          then to_float_str (lower_bound row) @ '' <= x'' @ to_int_str (var row)
                                 @ '' <= '' @ to_float_str (upper_bound row) @ nl
                          else [])
                (concat (map (\<lambda>n. the (map_of (variables m) n)) (non_binary_variables m))))
       \<and> bounds_to_file
            (m\<lparr>variables := filter (\<lambda>(n, rows). n \<in> set (non_binary_variables m)) (variables m)\<rparr>) f
           = bounds_to_file m f"
  by (simp add: bounds_to_file_eq select_filter_names select_present[OF assms] cells_def comp_def
      masked_def valid_bound_def bound_line_def)

theorem bounds_lines_witness:
  "set (non_binary_variables bounded_model) \<subseteq> fst ` set (variables bounded_model)
   \<and> bounds_to_file bounded_model [] =
       Inr [nl @ ''bounds'' @ nl, ''+0.000000 <= x0 <= +5.000000'' @ nl, []]"
proof -
  have h: "set (non_binary_variables bounded_model) \<subseteq> fst ` set (variables bounded_model)"
    by (simp add: bounded_model_def)
  from bounds_lines [OF h, of "[]"]
  have "bounds_to_file bounded_model [] =
       Inr [nl @ ''bounds'' @ nl, ''+0.000000 <= x0 <= +5.000000'' @ nl, []]"
    by (simp add: bounded_model_def fmt_eval)
  with h show ?thesis by blast
qed

text \<open>
  C3. A constraint row with a null sign is not valid, and C3 has it contribute the
  empty string. The export does not get that far: the block strings are concatenated for
  every row before the mask is applied, the null sign is not a string, and the
  concatenation raises \<open>TypeError\<close>. So the constraints section, and with it the whole
  export, fails on the model whose only constraint row has a null sign. For rows that
  have a sign and at least one term cell the claim holds, see \<open>constraints_str_eq\<close>.
\<close>

theorem null_sign_raises:
  "sign null_sign_row = None \<and> cells (constraints null_sign_model) = [null_sign_row]
   \<and> constraints_to_file null_sign_model f = Inl TypeError
   \<and> to_file null_sign_model = Inl TypeError"
  by (simp add: to_file_eq constraints_to_file_eq null_sign_model_def null_sign_row_def cells_def)

text \<open>
  C7 (amended). Whenever the constraints section is written, its content is the header
  followed by the blocks of the valid rows in the order of the rows in the constraint
  table; a block holds the lines of its valid term cells in ascending term index, the
  invalid cells leaving no gap (see \<open>block_def\<close>). The blocks are in ascending order of
  constraint label when the labels of the valid rows ascend along the table.
\<close>

theorem constraint_blocks_in_table_order:
  assumes "constraints_to_file m f = Inr out"
  shows "content out =
           content f @ nl @ nl @ ''s.t.'' @ nl @ nl
             @ concat (map block (filter valid_row (cells (constraints m))))
       \<and> (sorted (map con_label (filter valid_row (cells (constraints m)))) \<longrightarrow>
            content out =
              content f @ nl @ nl @ ''s.t.'' @ nl @ nl @ ascending_blocks (cells (constraints m)))"
  using assms
  by (auto simp: constraints_to_file_eq content_def concat_masked ascending_blocks_def
      sort_key_id_if_sorted split: if_splits)

theorem constraint_blocks_in_table_order_witness:
  "constraints_to_file ragged_model [] = Inr ragged_sink
   \<and> sorted (map con_label (filter valid_row (cells (constraints ragged_model))))
   \<and> content ragged_sink =
       content [] @ nl @ nl @ ''s.t.'' @ nl @ nl
         @ concat (map block (filter valid_row (cells (constraints ragged_model))))
   \<and> content ragged_sink =
       content [] @ nl @ nl @ ''s.t.'' @ nl @ nl
         @ ascending_blocks (cells (constraints ragged_model))"
proof -
  have h: "constraints_to_file ragged_model [] = Inr ragged_sink"
    by (simp add: constraints_to_file_eq ragged_model_def example_model_def ragged_sink_def
        line_eval fmt_eval)
  have s: "sorted (map con_label (filter valid_row (cells (constraints ragged_model))))"
    by (simp add: ragged_model_def cells_def con_label_def fillna0_label_def valid_row_def
        valid_cell_def)
  from constraint_blocks_in_table_order [OF h] h s show ?thesis by blast
qed

text \<open>
  C7 as stated fails: for a table holding the label 1 before the label 0 the block of
  \<open>c1\<close> is written before the block of \<open>c0\<close>, which is not the ascending order.
\<close>

theorem descending_labels_counterexample:
  "constraints_to_file descending_model [] = Inr descending_sink
   \<and> content descending_sink \<noteq>
       nl @ nl @ ''s.t.'' @ nl @ nl @ ascending_blocks (cells (constraints descending_model))"
  by (simp add: constraints_to_file_eq descending_model_def example_model_def row_c1_def row_c0_def
      descending_sink_def ascending_blocks_def con_label_def content_def line_eval fmt_eval nl_def)

section \<open>The binary snapshot: round trip and missing keys\<close>

lemma merge_vars_fresh:
  "distinct (map fst (acc @ ds)) \<Longrightarrow> merge_vars acc ds = Inr (acc @ ds)"
proof (induction ds arbitrary: acc)
  case Nil then show ?case by simp
next
  case (Cons x ds)
  obtain k t where x: "x = (k, t)" by (cases x)
  from Cons.prems have "k \<notin> fst ` set acc" by (auto simp: x)
  then have n: "map_of acc k = None" by (simp add: map_of_eq_None_iff)
  from Cons.prems have "distinct (map fst ((acc @ [(k, t)]) @ ds))" by (simp add: x)
  from Cons.IH[OF this] n show ?case by (simp add: x)
qed

lemma merge_from_fresh:
  "distinct (map fst (acc @ concat dss)) \<Longrightarrow> merge_from acc dss = Inr (acc @ concat dss)"
proof (induction dss arbitrary: acc)
  case Nil then show ?case by simp
next
  case (Cons ds dss)
  from Cons.prems have "distinct (map fst (acc @ ds))" by auto
  then have m: "merge_vars acc ds = Inr (acc @ ds)" by (rule merge_vars_fresh)
  from Cons.prems have "distinct (map fst ((acc @ ds) @ concat dss))" by simp
  from Cons.IH[OF this] m show ?case by simp
qed

lemma takeWhile_dash:
  "CHR ''-'' \<notin> set a \<Longrightarrow> takeWhile (\<lambda>c. c \<noteq> CHR ''-'') (a @ ''-'' @ v) = a"
  by (induction a) auto

lemma key_category:
  assumes "CHR ''-'' \<notin> set a" "CHR ''-'' \<notin> set b" "a @ ''-'' @ v = b @ ''-'' @ w"
  shows "a = b"
  using takeWhile_dash[OF assms(1), of v] takeWhile_dash[OF assms(2), of w] assms(3) by simp

lemma startswith_key:
  assumes "CHR ''-'' \<notin> set a" "CHR ''-'' \<notin> set b"
  shows "startswith (b @ ''-'' @ v) (a @ ''-'') = (a = b)"
proof
  assume "startswith (b @ ''-'' @ v) (a @ ''-'')"
  then obtain r where "b @ ''-'' @ v = (a @ ''-'') @ r"
    by (auto simp: startswith_def prefix_def)
  then have "a @ ''-'' @ r = b @ ''-'' @ v" by simp
  from key_category[OF assms this] show "a = b" .
next
  assume "a = b"
  then show "startswith (b @ ''-'' @ v) (a @ ''-'')"
    by (simp add: startswith_def)
qed

lemma keys_get_and_rename:
  "k \<in> fst ` set (get_and_rename m a) \<Longrightarrow> \<exists>v. k = a @ ''-'' @ v"
  by (auto simp: get_and_rename_def)

lemma distinct_get_and_rename:
  "distinct (map fst (fields_of (arrays m a))) \<Longrightarrow> distinct (map fst (get_and_rename m a))"
proof -
  assume d: "distinct (map fst (fields_of (arrays m a)))"
  have "map fst (get_and_rename m a) = map (\<lambda>v. a @ ''-'' @ v) (map fst (fields_of (arrays m a)))"
    by (simp add: get_and_rename_def comp_def case_prod_beta)
  moreover have "inj (\<lambda>v. a @ ''-'' @ v)" by (rule injI) simp
  ultimately show ?thesis using d by (simp add: distinct_map inj_on_def)
qed

lemma distinct_merged_keys:
  assumes "distinct A" "\<forall>a\<in>set A. CHR ''-'' \<notin> set a"
    "\<forall>a\<in>set A. distinct (map fst (fields_of (arrays m a)))"
  shows "distinct (map fst (concat (map (get_and_rename m) A)))"
  using assms
proof (induction A)
  case Nil then show ?case by simp
next
  case (Cons a A)
  have 1: "distinct (map fst (get_and_rename m a))"
    using Cons.prems by (simp add: distinct_get_and_rename)
  have 2: "distinct (map fst (concat (map (get_and_rename m) A)))"
    using Cons by simp
  have 3: "fst ` set (get_and_rename m a) \<inter> fst ` set (concat (map (get_and_rename m) A)) = {}"
  proof (rule ccontr)
    assume "\<not> ?thesis"
    then obtain k where k1: "k \<in> fst ` set (get_and_rename m a)"
      and k2: "k \<in> fst ` set (concat (map (get_and_rename m) A))" by blast
    from k2 obtain b where b: "b \<in> set A" "k \<in> fst ` set (get_and_rename m b)" by auto
    from keys_get_and_rename[OF k1] keys_get_and_rename[OF b(2)]
    obtain v w where "a @ ''-'' @ v = b @ ''-'' @ w" by auto
    with Cons.prems(2) b(1) have "a = b" by (intro key_category[of a b v w]) auto
    with Cons.prems(1) b(1) show False by simp
  qed
  from 1 2 3 show ?case by (simp add: image_Un)
qed

lemma filter_get_and_rename:
  assumes "CHR ''-'' \<notin> set a" "CHR ''-'' \<notin> set b"
  shows "filter (\<lambda>(k, t). startswith k (a @ ''-'')) (get_and_rename m b)
           = (if a = b then get_and_rename m b else [])"
proof -
  have "\<And>x. x \<in> set (get_and_rename m b) \<Longrightarrow> (case x of (k, t) \<Rightarrow> startswith k (a @ ''-'')) = (a = b)"
    using startswith_key[OF assms] by (auto simp: get_and_rename_def)
  then show ?thesis
    by (cases "a = b") (simp_all add: filter_id_conv filter_empty_conv)
qed

lemma filter_merged:
  assumes "distinct A" "\<forall>b\<in>set A. CHR ''-'' \<notin> set b" "CHR ''-'' \<notin> set a"
  shows "filter (\<lambda>(k, t). startswith k (a @ ''-'')) (concat (map (get_and_rename m) A))
           = (if a \<in> set A then get_and_rename m a else [])"
  using assms
proof (induction A)
  case Nil then show ?case by simp
next
  case (Cons b A)
  have f: "filter (\<lambda>(k, t). startswith k (a @ ''-'')) (get_and_rename m b)
           = (if a = b then get_and_rename m b else [])"
    using Cons.prems by (intro filter_get_and_rename) auto
  from Cons have ih: "filter (\<lambda>(k, t). startswith k (a @ ''-'')) (concat (map (get_and_rename m) A))
           = (if a \<in> set A then get_and_rename m a else [])" by simp
  from Cons.prems(1) have "a = b \<Longrightarrow> a \<notin> set A" by auto
  with f ih show ?case by auto
qed

lemma strip_get_and_rename:
  "map (\<lambda>(k, t). (drop (length a + 1) k, t)) (get_and_rename m a) = fields_of (arrays m a)"
  by (simp add: get_and_rename_def comp_def case_prod_beta)

lemma read_arrays_eq:
  "read_arrays all_ds A (m, b) =
     (m\<lparr>arrays := (\<lambda>x. if x \<in> set A then Table (data_vars (category all_ds x)) else arrays m x)\<rparr>,
      if A = [] then b else Some (category all_ds (last A)))"
proof (induction A arbitrary: m b)
  case Nil then show ?case by simp
next
  case (Cons a A)
  have "m\<lparr>arrays := (\<lambda>x. if x \<in> set A then Table (data_vars (category all_ds x))
             else ((arrays m)(a := Table (data_vars (category all_ds a)))) x)\<rparr>
      = m\<lparr>arrays := (\<lambda>x. if x \<in> set (a # A) then Table (data_vars (category all_ds x))
             else arrays m x)\<rparr>"
    by (rule arg_cong[where f = "\<lambda>f. m\<lparr>arrays := f\<rparr>"], rule ext) auto
  then show ?case by (simp add: Cons.IH Let_def cong del: if_weak_cong)
qed

lemma map_of_filter_key:
  "map_of (filter (\<lambda>(k', v'). k' \<noteq> k) at) x = (if x = k then None else map_of at x)"
  by (induction at) auto

lemma pop_attrs_ok:
  "distinct ks \<Longrightarrow> \<forall>k\<in>set ks. map_of at k = Some (g k) \<Longrightarrow>
     pop_attrs ks at m = Inr (m\<lparr>scalars := (\<lambda>x. if x \<in> set ks then g x else scalars m x)\<rparr>)"
proof (induction ks arbitrary: at m)
  case Nil then show ?case by simp
next
  case (Cons k ks)
  have 1: "map_of at k = Some (g k)" using Cons.prems by simp
  have 2: "\<forall>x\<in>set ks. map_of (filter (\<lambda>(k', v'). k' \<noteq> k) at) x = Some (g x)"
    using Cons.prems by (auto simp: map_of_filter_key)
  have 3: "distinct ks" using Cons.prems by simp
  have "m\<lparr>scalars := (\<lambda>x. if x \<in> set ks then g x else ((scalars m)(k := g k)) x)\<rparr>
      = m\<lparr>scalars := (\<lambda>x. if x \<in> set (k # ks) then g x else scalars m x)\<rparr>"
    by (rule arg_cong[where f = "\<lambda>f. m\<lparr>scalars := f\<rparr>"], rule ext) auto
  then show ?case by (simp add: 1 Cons.IH[OF 3 2] cong del: if_weak_cong)
qed

lemma pop_attrs_missing:
  "distinct ks \<Longrightarrow> k \<in> set ks \<Longrightarrow> k \<notin> fst ` set at \<Longrightarrow>
     \<exists>k'\<in>set ks. k' \<notin> fst ` set at \<and> pop_attrs ks at m = Inl (KeyError k')"
proof (induction ks arbitrary: at m)
  case Nil then show ?case by simp
next
  case (Cons x ks)
  show ?case
  proof (cases "map_of at x")
    case None
    then have "x \<notin> fst ` set at" by (simp add: map_of_eq_None_iff)
    with None show ?thesis by auto
  next
    case (Some v)
    then have "x \<in> fst ` set at" by (metis map_of_eq_None_iff option.distinct(1))
    with Cons.prems have kk: "k \<in> set ks" by auto
    have "k \<notin> fst ` set (filter (\<lambda>(k', v'). k' \<noteq> x) at)" using Cons.prems(3) by auto
    from Cons.IH[OF _ kk this, of "m\<lparr>scalars := (scalars m)(x := v)\<rparr>"] Cons.prems(1)
    obtain k' where k': "k' \<in> set ks" "k' \<notin> fst ` set (filter (\<lambda>(k', v'). k' \<noteq> x) at)"
      "pop_attrs ks (filter (\<lambda>(k', v'). k' \<noteq> x) at) (m\<lparr>scalars := (scalars m)(x := v)\<rparr>) = Inl (KeyError k')"
      by auto
    from k'(1) Cons.prems(1) have "k' \<noteq> x" by auto
    with k'(2) have "k' \<notin> fst ` set at" by force
    with k' Some show ?thesis by auto
  qed
qed

lemma map_of_attrs: "k \<in> set ks \<Longrightarrow> map_of (map (\<lambda>k. (k, g k)) ks) k = Some (g k)"
  by (induction ks) auto

lemma labels_of_replicate_Labeled: "labels_of (replicate n (Labeled l)) = replicate n l"
  by (induction n) simp_all

lemma sizes_of_replicate_Labeled: "sizes_of (replicate n (Labeled l)) = []"
  by (induction n) simp_all

lemma labels_of_replicate_Unlabeled: "labels_of (replicate n (Unlabeled k)) = []"
  by (induction n) simp_all

lemma sizes_of_replicate_Unlabeled: "sizes_of (replicate n (Unlabeled k)) = replicate n k"
  by (induction n) simp_all

lemma join_dim_same:
  assumes "ixs \<noteq> []" "\<forall>x\<in>set ixs. x = ix"
  shows "join_dim ixs = Inr ix"
proof -
  from assms(2) have r: "ixs = replicate (length ixs) ix"
    by (simp add: replicate_length_same)
  from assms(1) obtain n where n: "length ixs = Suc n" by (cases ixs) auto
  show ?thesis
  proof (cases ix)
    case (Labeled l)
    have "join_dim (replicate (Suc n) (Labeled l)) = Inr (Labeled l)"
      unfolding join_dim_def labels_of_replicate_Labeled sizes_of_replicate_Labeled
      by (simp add: list_all_iff)
    with r n Labeled show ?thesis by simp
  next
    case (Unlabeled k)
    have "join_dim (replicate (Suc n) (Unlabeled k)) = Inr (Unlabeled k)"
      unfolding join_dim_def labels_of_replicate_Unlabeled sizes_of_replicate_Unlabeled
      by (simp add: list_all_iff)
    with r n Unlabeled show ?thesis by simp
  qed
qed

lemma align_table_same:
  assumes "\<forall>(d, ix)\<in>set (axes t). dim_indexes d ax \<noteq> [] \<and> (\<forall>x\<in>set (dim_indexes d ax). x = ix)"
  shows "align_table ax t = Inr t"
proof -
  have "\<And>a. a \<in> set (axes t) \<Longrightarrow> (case a of (d, ix) \<Rightarrow> join_dim (dim_indexes d ax)) = Inr (snd a)"
    using assms by (auto intro!: join_dim_same)
  then have "all_ok (map (\<lambda>(d, ix). join_dim (dim_indexes d ax)) (axes t)) = Inr (map snd (axes t))"
    by (rule all_ok_map_Inr)
  then show ?thesis by (simp add: align_table_def)
qed

lemma all_ok_map_id: "(\<And>x. x \<in> set xs \<Longrightarrow> h x = Inr x) \<Longrightarrow> all_ok (map h xs) = Inr xs"
  using all_ok_map_Inr[of xs h "\<lambda>x. x"] by simp

lemma align_agree:
  assumes "agree_on_dims (map snd (concat dss))"
  shows "align dss = Inr dss"
proof -
  have ax: "all_axes dss = concat (map axes (map snd (concat dss)))"
    by (simp add: all_axes_def comp_def case_prod_unfold)
  have t: "align_table (all_axes dss) t = Inr t" if "t \<in> snd ` set (concat dss)" for t
  proof (rule align_table_same, clarify)
    fix d ix assume a: "(d, ix) \<in> set (axes t)"
    with that have m: "(d, ix) \<in> set (all_axes dss)" unfolding ax by auto
    then have ne: "dim_indexes d (all_axes dss) \<noteq> []"
      by (auto simp: dim_indexes_def filter_empty_conv)
    have "\<forall>x\<in>set (dim_indexes d (all_axes dss)). x = ix"
    proof
      fix x assume "x \<in> set (dim_indexes d (all_axes dss))"
      then have "(d, x) \<in> set (all_axes dss)" by (auto simp: dim_indexes_def)
      with m assms show "x = ix" unfolding agree_on_dims_def ax by blast
    qed
    with ne show "dim_indexes d (all_axes dss) \<noteq> [] \<and> (\<forall>x\<in>set (dim_indexes d (all_axes dss)). x = ix)"
      by blast
  qed
  have "all_ok (map (\<lambda>(k, t). case align_table (all_axes dss) t of Inl e \<Rightarrow> Inl e | Inr t' \<Rightarrow> Inr (k, t')) ds) = Inr ds"
    if "ds \<in> set dss" for ds
  proof (rule all_ok_map_id)
    fix x assume "x \<in> set ds"
    with that have "snd x \<in> snd ` set (concat dss)" by auto
    from t[OF this] show "(case x of (k, t) \<Rightarrow> case align_table (all_axes dss) t of Inl e \<Rightarrow> Inl e | Inr t' \<Rightarrow> Inr (k, t')) = Inr x"
      by (cases x) simp
  qed
  then show ?thesis unfolding align_def by (rule all_ok_map_id)
qed

lemma tables_of_renamed:
  "map snd (concat (map (get_and_rename m) A)) = tables_of A m"
  by (induction A) (simp_all add: tables_of_def get_and_rename_def comp_def case_prod_beta)

lemma to_netcdf_ok:
  assumes "distinct A" "\<forall>a\<in>set A. CHR ''-'' \<notin> set a"
    "\<forall>a\<in>set A. distinct (map fst (fields_of (arrays m a)))"
    "agree_on_dims (tables_of A m)"
  shows "to_netcdf A OA m =
     Inr \<lparr>data_vars = concat (map (get_and_rename m) A), attrs = map (\<lambda>k. (k, scalars m k)) OA\<rparr>"
proof -
  have a: "align (map (get_and_rename m) A) = Inr (map (get_and_rename m) A)"
    using assms(4) by (intro align_agree) (simp add: tables_of_renamed)
  have "distinct (map fst ([] @ concat (map (get_and_rename m) A)))"
    using distinct_merged_keys[OF assms(1,2,3)] by simp
  from merge_from_fresh[OF this] show ?thesis
    by (simp add: to_netcdf_def merge_def a)
qed

lemma read_netcdf_eq:
  assumes "A \<noteq> []"
  shows "read_netcdf A OA m0 c =
     pop_attrs OA (attrs c)
       (m0\<lparr>arrays := (\<lambda>x. if x = ''objective''
                 then LinearExpression (if x \<in> set A then Table (data_vars (category c x)) else arrays m0 x)
                 else if x \<in> set A then Table (data_vars (category c x)) else arrays m0 x)\<rparr>)"
proof -
  have a: "attrs (category c (last A)) = attrs c" by (simp add: category_def Let_def)
  have "m0\<lparr>arrays := (\<lambda>x. if x \<in> set A then Table (data_vars (category c x)) else arrays m0 x)
          (''objective'' := LinearExpression (if ''objective'' \<in> set A
              then Table (data_vars (category c ''objective'')) else arrays m0 ''objective''))\<rparr>
     = m0\<lparr>arrays := (\<lambda>x. if x = ''objective''
                 then LinearExpression (if x \<in> set A then Table (data_vars (category c x)) else arrays m0 x)
                 else if x \<in> set A then Table (data_vars (category c x)) else arrays m0 x)\<rparr>"
    by (rule arg_cong[where f = "\<lambda>f. m0\<lparr>arrays := f\<rparr>"], rule ext) simp
  then have b: "(case read_arrays c A (m0, None) of (m, bound) \<Rightarrow>
        let m = m\<lparr>arrays := (arrays m)(''objective'' := LinearExpression (arrays m ''objective''))\<rparr>
        in if OA = [] then Inr m
           else (case bound of None \<Rightarrow> Inl NameError
                 | Some ds \<Rightarrow> pop_attrs OA (attrs ds) m))
     = (if OA = [] then Inr (m0\<lparr>arrays := (\<lambda>x. if x = ''objective''
                 then LinearExpression (if x \<in> set A then Table (data_vars (category c x)) else arrays m0 x)
                 else if x \<in> set A then Table (data_vars (category c x)) else arrays m0 x)\<rparr>)
        else pop_attrs OA (attrs c) (m0\<lparr>arrays := (\<lambda>x. if x = ''objective''
                 then LinearExpression (if x \<in> set A then Table (data_vars (category c x)) else arrays m0 x)
                 else if x \<in> set A then Table (data_vars (category c x)) else arrays m0 x)\<rparr>))"
    using assms by (simp add: read_arrays_eq a Let_def)
  show ?thesis
    unfolding read_netcdf_def b by (cases OA) simp_all
qed

lemma category_written:
  assumes "distinct A" "\<forall>a\<in>set A. CHR ''-'' \<notin> set a" "a \<in> set A"
  shows "data_vars (category \<lparr>data_vars = concat (map (get_and_rename m) A), attrs = at\<rparr> a)
           = fields_of (arrays m a)"
proof -
  have "CHR ''-'' \<notin> set a" using assms by simp
  from filter_merged[OF assms(1,2) this, of m] assms(3) strip_get_and_rename[of a m] show ?thesis
    by (simp add: category_def Let_def)
qed

text \<open>
  C1 (amended). Let the category names be distinct, non-empty in number and free of \<open>-\<close>
  (they are attribute names), the scalar attribute names distinct, the field names of
  each category distinct, and let the objective, and no other category, be a term table.
  Let moreover the tables of all the categories agree on the dimensions they share: one
  index for each dimension name. Then writing the model succeeds, reading the written
  container back succeeds, and the model read has the same value as the original in every
  category (every field with its table, the objective again a term table) and in every
  scalar attribute. Categories without any field (no constraints, no variables) and
  ragged tables are included.
\<close>

theorem snapshot_round_trip:
  assumes "distinct array_attrs" and "array_attrs \<noteq> []"
    and "\<forall>a\<in>set array_attrs. CHR ''-'' \<notin> set a"
    and "distinct obj_attrs"
    and "\<forall>a\<in>set array_attrs. distinct (map fst (fields_of (arrays m a)))"
    and "\<forall>a\<in>set array_attrs. is_term_table (arrays m a) = (a = ''objective'')"
    and "agree_on_dims (tables_of array_attrs m)"
  shows "\<exists>c m'. to_netcdf array_attrs obj_attrs m = Inr c
           \<and> read_netcdf array_attrs obj_attrs m0 c = Inr m'
           \<and> (\<forall>a\<in>set array_attrs. arrays m' a = arrays m a)
           \<and> (\<forall>k\<in>set obj_attrs. scalars m' k = scalars m k)
           \<and> is_term_table (arrays m' ''objective'')"
proof -
  let ?c = "\<lparr>data_vars = concat (map (get_and_rename m) array_attrs),
             attrs = map (\<lambda>k. (k, scalars m k)) obj_attrs\<rparr>"
  let ?m1 = "m0\<lparr>arrays := (\<lambda>x. if x = ''objective''
                 then LinearExpression (if x \<in> set array_attrs then Table (data_vars (category ?c x)) else arrays m0 x)
                 else if x \<in> set array_attrs then Table (data_vars (category ?c x)) else arrays m0 x)\<rparr>"
  let ?m' = "?m1\<lparr>scalars := (\<lambda>x. if x \<in> set obj_attrs then scalars m x else scalars ?m1 x)\<rparr>"
  have w: "to_netcdf array_attrs obj_attrs m = Inr ?c"
    using assms(1,3,5,7) by (rule to_netcdf_ok)
  have "\<forall>k\<in>set obj_attrs. map_of (attrs ?c) k = Some (scalars m k)"
    by (simp add: map_of_attrs)
  from pop_attrs_ok[OF assms(4) this, of ?m1]
  have r: "read_netcdf array_attrs obj_attrs m0 ?c = Inr ?m'"
    by (simp add: read_netcdf_eq[OF assms(2)])
  have ar: "arrays ?m' a = arrays m a" if a: "a \<in> set array_attrs" for a
  proof -
    have d: "data_vars (category ?c a) = fields_of (arrays m a)"
      using assms(1,3) a by (rule category_written)
    from assms(6) a have t: "is_term_table (arrays m a) = (a = ''objective'')" by simp
    show ?thesis
    proof (cases "a = ''objective''")
      case True
      with t have "arrays m a = TermTable (fields_of (arrays m a))"
        by (cases "arrays m a") (simp_all add: is_term_table_def)
      with True a d show ?thesis by (simp add: LinearExpression_def)
    next
      case False
      with t have "arrays m a = Table (fields_of (arrays m a))"
        by (cases "arrays m a") (simp_all add: is_term_table_def)
      with False a d show ?thesis by simp
    qed
  qed
  have sc: "\<forall>k\<in>set obj_attrs. scalars ?m' k = scalars m k" by simp
  have ob: "is_term_table (arrays ?m' ''objective'')"
    by (simp add: LinearExpression_def is_term_table_def)
  from w r ar sc ob show ?thesis by blast
qed

theorem snapshot_round_trip_witness:
  "distinct snap_array_attrs \<and> snap_array_attrs \<noteq> []
   \<and> list_all (\<lambda>a. CHR ''-'' \<notin> set a) snap_array_attrs
   \<and> distinct snap_obj_attrs
   \<and> list_all (\<lambda>a. distinct (map fst (fields_of (arrays snap_model a)))) snap_array_attrs
   \<and> list_all (\<lambda>a. is_term_table (arrays snap_model a) = (a = ''objective'')) snap_array_attrs
   \<and> agree_on_dims (tables_of snap_array_attrs snap_model)
   \<and> (\<exists>c m'. to_netcdf snap_array_attrs snap_obj_attrs snap_model = Inr c
           \<and> read_netcdf snap_array_attrs snap_obj_attrs fresh_table_model c = Inr m'
           \<and> (\<forall>a\<in>set snap_array_attrs. arrays m' a = arrays snap_model a)
           \<and> (\<forall>k\<in>set snap_obj_attrs. scalars m' k = scalars snap_model k)
           \<and> is_term_table (arrays m' ''objective''))"
proof -
  have h1: "distinct snap_array_attrs" by (simp add: snap_array_attrs_def)
  have h2: "snap_array_attrs \<noteq> []" by (simp add: snap_array_attrs_def)
  have h3: "\<forall>a\<in>set snap_array_attrs. CHR ''-'' \<notin> set a" by (simp add: snap_array_attrs_def)
  have h4: "distinct snap_obj_attrs" by (simp add: snap_obj_attrs_def)
  have h5: "\<forall>a\<in>set snap_array_attrs. distinct (map fst (fields_of (arrays snap_model a)))"
    by (simp add: snap_array_attrs_def snap_model_def)
  have h6: "\<forall>a\<in>set snap_array_attrs. is_term_table (arrays snap_model a) = (a = ''objective'')"
    by (simp add: snap_array_attrs_def snap_model_def is_term_table_def)
  have h7: "agree_on_dims (tables_of snap_array_attrs snap_model)"
    by (simp add: agree_on_dims_def tables_of_def snap_array_attrs_def snap_model_def term_axis_def)
  from snapshot_round_trip [OF h1 h2 h3 h4 h5 h6 h7, of fresh_table_model] h1 h2 h3 h4 h5 h6 h7
  show ?thesis unfolding list_all_iff by blast
qed

lemma to_netcdf_misaligned:
  "to_netcdf snap_array_attrs snap_obj_attrs misaligned_model = Inr misaligned_file"
  by (simp add: to_netcdf_def align_def align_table_def all_axes_def dim_indexes_def join_dim_def
      reindex_def get_and_rename_def merge_def snap_array_attrs_def snap_obj_attrs_def
      misaligned_model_def misaligned_file_def Let_def upt_rec)

lemma to_netcdf_unlabeled:
  "to_netcdf snap_array_attrs snap_obj_attrs unlabeled_model = Inl ValueError"
  by (simp add: to_netcdf_def align_def align_table_def all_axes_def dim_indexes_def join_dim_def
      get_and_rename_def snap_array_attrs_def unlabeled_model_def)

text \<open>
  C1 as stated fails for a model whose categories index a shared dimension differently:
  \<open>xr.merge\<close> joins the indexes and pads the smaller table with a null, and the table read
  back has three cells where the original has two. When the dimension has no labels and
  the sizes differ, writing raises \<open>ValueError\<close>.
\<close>

theorem misaligned_tables_counterexample:
  "to_netcdf snap_array_attrs snap_obj_attrs misaligned_model = Inr misaligned_file
   \<and> \<not> isl (read_netcdf snap_array_attrs snap_obj_attrs fresh_table_model misaligned_file)
   \<and> arrays (projr (read_netcdf snap_array_attrs snap_obj_attrs fresh_table_model misaligned_file))
        ''constraints''
       = Table [(''c'', \<lparr>axes = [(''dim_0'', Labeled [0, 1, 2])], tdata = [Some 0, Some 1, None]\<rparr>)]
   \<and> arrays misaligned_model ''constraints''
       = Table [(''c'', \<lparr>axes = [(''dim_0'', Labeled [0, 1])], tdata = [Some 0, Some 1]\<rparr>)]
   \<and> arrays (projr (read_netcdf snap_array_attrs snap_obj_attrs fresh_table_model misaligned_file))
        ''constraints''
       \<noteq> arrays misaligned_model ''constraints''
   \<and> to_netcdf snap_array_attrs snap_obj_attrs unlabeled_model = Inl ValueError"
proof -
  have n: "snap_array_attrs \<noteq> []" by (simp add: snap_array_attrs_def)
  have c: "data_vars (category misaligned_file ''constraints'')
      = [(''c'', \<lparr>axes = [(''dim_0'', Labeled [0, 1, 2])], tdata = [Some 0, Some 1, None]\<rparr>)]"
    by (simp add: category_def misaligned_file_def startswith_def)
  have a: "attrs misaligned_file = [(''status'', ''ok''), (''objective_value'', ''ok'')]"
    by (simp add: misaligned_file_def)
  have m: "arrays misaligned_model ''constraints''
       = Table [(''c'', \<lparr>axes = [(''dim_0'', Labeled [0, 1])], tdata = [Some 0, Some 1]\<rparr>)]"
    by (simp add: misaligned_model_def)
  have r: "\<not> isl (read_netcdf snap_array_attrs snap_obj_attrs fresh_table_model misaligned_file)
     \<and> arrays (projr (read_netcdf snap_array_attrs snap_obj_attrs fresh_table_model misaligned_file))
        ''constraints''
       = Table [(''c'', \<lparr>axes = [(''dim_0'', Labeled [0, 1, 2])], tdata = [Some 0, Some 1, None]\<rparr>)]"
    unfolding read_netcdf_eq[OF n]
    by (simp add: c a snap_obj_attrs_def snap_array_attrs_def)
  from r m to_netcdf_misaligned to_netcdf_unlabeled show ?thesis by simp
qed

text \<open>
  C4 (amended). A container \<open>c\<close> that lacks one of the scalar attributes makes the load
  fail with a \<open>KeyError\<close> that names a lacking attribute, and no model is returned. A
  container \<open>c'\<close> that has every scalar attribute loads, whatever categories it lacks: a
  category without any key of its prefix is reconstructed with no fields.
\<close>

theorem read_netcdf_missing_keys:
  assumes "array_attrs \<noteq> []" and "distinct obj_attrs"
    and "k \<in> set obj_attrs" and "k \<notin> fst ` set (attrs c)"
    and "set obj_attrs \<subseteq> fst ` set (attrs c')"
  shows "(\<exists>k'\<in>set obj_attrs. k' \<notin> fst ` set (attrs c)
            \<and> read_netcdf array_attrs obj_attrs m0 c = Inl (KeyError k'))
       \<and> (\<exists>m'. read_netcdf array_attrs obj_attrs m0 c' = Inr m'
            \<and> (\<forall>a\<in>set array_attrs. data_vars (category c' a) = [] \<longrightarrow> fields_of (arrays m' a) = []))"
proof -
  have 1: "\<exists>k'\<in>set obj_attrs. k' \<notin> fst ` set (attrs c)
            \<and> read_netcdf array_attrs obj_attrs m0 c = Inl (KeyError k')"
    unfolding read_netcdf_eq[OF assms(1)] using assms(2,3,4) by (rule pop_attrs_missing)
  let ?m1 = "m0\<lparr>arrays := (\<lambda>x. if x = ''objective''
                 then LinearExpression (if x \<in> set array_attrs then Table (data_vars (category c' x)) else arrays m0 x)
                 else if x \<in> set array_attrs then Table (data_vars (category c' x)) else arrays m0 x)\<rparr>"
  let ?m' = "?m1\<lparr>scalars := (\<lambda>x. if x \<in> set obj_attrs then the (map_of (attrs c') x) else scalars ?m1 x)\<rparr>"
  have "\<forall>k\<in>set obj_attrs. map_of (attrs c') k = Some (the (map_of (attrs c') k))"
  proof
    fix x assume "x \<in> set obj_attrs"
    with assms(5) have "x \<in> fst ` set (attrs c')" by blast
    then have "map_of (attrs c') x \<noteq> None" by (simp add: map_of_eq_None_iff)
    then show "map_of (attrs c') x = Some (the (map_of (attrs c') x))" by simp
  qed
  from pop_attrs_ok[OF assms(2) this, of ?m1]
  have r: "read_netcdf array_attrs obj_attrs m0 c' = Inr ?m'"
    by (simp add: read_netcdf_eq[OF assms(1)])
  have "\<forall>a\<in>set array_attrs. data_vars (category c' a) = [] \<longrightarrow> fields_of (arrays ?m' a) = []"
    by (simp add: LinearExpression_def)
  with r 1 show ?thesis by blast
qed

theorem read_netcdf_missing_keys_witness:
  "snap_array_attrs \<noteq> [] \<and> distinct snap_obj_attrs
   \<and> ''objective_value'' \<in> set snap_obj_attrs
   \<and> ''objective_value'' \<notin> fst ` set (attrs no_value_file)
   \<and> set snap_obj_attrs \<subseteq> fst ` set (attrs no_constraints_file)
   \<and> data_vars (category no_constraints_file ''constraints'') = []
   \<and> (\<exists>k'\<in>set snap_obj_attrs. k' \<notin> fst ` set (attrs no_value_file)
          \<and> read_netcdf snap_array_attrs snap_obj_attrs fresh_model no_value_file = Inl (KeyError k'))
   \<and> (\<exists>m'. read_netcdf snap_array_attrs snap_obj_attrs fresh_model no_constraints_file = Inr m'
          \<and> (\<forall>a\<in>set snap_array_attrs. data_vars (category no_constraints_file a) = []
                \<longrightarrow> fields_of (arrays m' a) = []))"
proof -
  have h1: "snap_array_attrs \<noteq> []" by (simp add: snap_array_attrs_def)
  have h2: "distinct snap_obj_attrs" by (simp add: snap_obj_attrs_def)
  have h3: "''objective_value'' \<in> set snap_obj_attrs" by (simp add: snap_obj_attrs_def)
  have h4: "''objective_value'' \<notin> fst ` set (attrs no_value_file)"
    by (simp add: no_value_file_def)
  have h5: "set snap_obj_attrs \<subseteq> fst ` set (attrs no_constraints_file)"
    by (simp add: snap_obj_attrs_def no_constraints_file_def)
  have h6: "data_vars (category no_constraints_file ''constraints'') = []"
    by (simp add: category_def no_constraints_file_def startswith_def)
  from read_netcdf_missing_keys [OF h1 h2 h3 h4 h5, of fresh_model] h1 h2 h3 h4 h5 h6
  show ?thesis by blast
qed

text \<open>
  C4 as stated fails: a container with all scalar attributes and no key with the prefix
  \<open>constraints-\<close> loads without error, the category \<open>constraints\<close> being empty.
\<close>

theorem missing_category_counterexample:
  "data_vars (category no_constraints_file ''constraints'') = []
   \<and> \<not> isl (read_netcdf snap_array_attrs snap_obj_attrs fresh_model no_constraints_file)
   \<and> arrays (projr (read_netcdf snap_array_attrs snap_obj_attrs fresh_model no_constraints_file))
        ''constraints'' = Table []"
proof -
  have n: "snap_array_attrs \<noteq> []" by (simp add: snap_array_attrs_def)
  have c: "data_vars (category no_constraints_file ''constraints'') = []"
    by (simp add: category_def no_constraints_file_def startswith_def)
  have a: "attrs no_constraints_file = [(''status'', ''ok''), (''objective_value'', ''nan'')]"
    by (simp add: no_constraints_file_def)
  show ?thesis
    unfolding read_netcdf_eq[OF n]
    by (simp add: c a snap_obj_attrs_def snap_array_attrs_def)
qed

end
